theory Spec2Isabelle
  imports Main
begin

section \<open>Values, errors and the board\<close>

text \<open>
  A board cell holds a JavaScript number (0 empty, 1 and 2 the men of player 1 and
  player 2, 3 and 4 their kings). Reading an array index that was never written yields
  \<open>undefined\<close>, so a cell value is either \<open>Undefined\<close> or a number.
\<close>

datatype jsval = Undefined | Num int

text \<open>JavaScript truthiness of a cell value: \<open>undefined\<close> and 0 are falsy.\<close>

fun truthy :: "jsval \<Rightarrow> bool" where
  "truthy Undefined = False"
| "truthy (Num n) = (n \<noteq> 0)"

text \<open>
  \<open>TypeError\<close> is what indexing \<open>undefined\<close> raises; \<open>Error msg\<close> is
  \<open>new Error(msg)\<close> thrown by the server's own code.
\<close>

datatype error = TypeError | Error string

text \<open>
  The board is the array of the eight row arrays built by \<open>createInitialBoard\<close>. No
  statement of the program adds, removes or replaces a row, so the rows are fixed to the
  indices 0..7: \<open>board[r]\<close> is \<open>undefined\<close> for every other \<open>r\<close>, and indexing it
  raises a TypeError. A row is a JavaScript array, that is an object keyed by index:
  \<open>b r c\<close> is the value of \<open>board[r][c]\<close> for every integer \<open>c\<close>, \<open>Undefined\<close>
  where the index was never written, and an assignment to any index of an existing row
  stores the value under that index (the array grows). Values of \<open>b r\<close> for \<open>r\<close>
  outside 0..7 are never read or written.
\<close>

type_synonym board = "int \<Rightarrow> int \<Rightarrow> jsval"

definition rd :: "board \<Rightarrow> int \<Rightarrow> int \<Rightarrow> error + jsval" where
  "rd b r c = (if 0 \<le> r \<and> r \<le> 7 then Inr (b r c) else Inl TypeError)"

definition setCell :: "board \<Rightarrow> int \<Rightarrow> int \<Rightarrow> jsval \<Rightarrow> board" where
  "setCell b r c v = b(r := (b r)(c := v))"

definition wr :: "board \<Rightarrow> int \<Rightarrow> int \<Rightarrow> jsval \<Rightarrow> error + board" where
  "wr b r c v = (if 0 \<le> r \<and> r \<le> 7 then Inr (setCell b r c v) else Inl TypeError)"

definition inGrid :: "int \<times> int \<Rightarrow> bool" where
  "inGrid p = (0 \<le> fst p \<and> fst p \<le> 7 \<and> 0 \<le> snd p \<and> snd p \<le> 7)"

definition idx8 :: "int list" where
  "idx8 = [0, 1, 2, 3, 4, 5, 6, 7]"

section \<open>Initial position\<close>

text \<open>\<open>Array.from({ length: 8 }, () => Array(8).fill(0))\<close>\<close>

definition zeroBoard :: board where
  "zeroBoard = (\<lambda>r c. if inGrid (r, c) then Num 0 else Undefined)"

text \<open>
  The inner loop \<open>for (col = 0; col < 8; col++) if ((row + col) % 2 === 1)
  board[row][col] = v\<close> and the outer loop over the rows.
\<close>

fun fillCols :: "jsval \<Rightarrow> int \<Rightarrow> int list \<Rightarrow> board \<Rightarrow> board" where
  "fillCols v row [] b = b"
| "fillCols v row (col # cols) b =
     fillCols v row cols (if (row + col) mod 2 = 1 then setCell b row col v else b)"

fun fillRows :: "jsval \<Rightarrow> int list \<Rightarrow> board \<Rightarrow> board" where
  "fillRows v [] b = b"
| "fillRows v (row # rows) b = fillRows v rows (fillCols v row idx8 b)"

definition createInitialBoard :: board where
  "createInitialBoard = fillRows (Num 1) [5, 6, 7] (fillRows (Num 2) [0, 1, 2] zeroBoard)"

record gameState =
  board :: board
  currentTurn :: int
  winner :: "int option"
  mustJumpFrom :: "(int \<times> int) option"

definition createGameState :: gameState where
  "createGameState =
     \<lparr>board = createInitialBoard, currentTurn = 1, winner = None, mustJumpFrom = None\<rparr>"

section \<open>Rules engine\<close>

text \<open>
  A move object \<open>{ from, to, captured }\<close>; \<open>captured\<close> is \<open>null\<close> for a simple move.
  The field \<open>from\<close> is named \<open>mv_from\<close> here, and \<open>to\<close> \<open>mv_to\<close>.
\<close>

record move =
  mv_from :: "int \<times> int"
  mv_to :: "int \<times> int"
  captured :: "(int \<times> int) option"

text \<open>\<open>piece === 1 || piece === 3 ? 1 : 2\<close>\<close>

definition playerOf :: "jsval \<Rightarrow> int" where
  "playerOf piece = (if piece = Num 1 \<or> piece = Num 3 then 1 else 2)"

definition isKingPiece :: "jsval \<Rightarrow> bool" where
  "isKingPiece piece = (piece = Num 3 \<or> piece = Num 4)"

definition isEnemy :: "int \<Rightarrow> jsval \<Rightarrow> bool" where
  "isEnemy player target =
     (truthy target \<and>
      ((player = 1 \<and> (target = Num 2 \<or> target = Num 4)) \<or>
       (player = 2 \<and> (target = Num 1 \<or> target = Num 3))))"

definition directions :: "int \<Rightarrow> bool \<Rightarrow> (int \<times> int) list" where
  "directions player isKing =
     (if player = 1 \<or> isKing then [(-1, -1), (-1, 1)] else []) @
     (if player = 2 \<or> isKing then [(1, -1), (1, 1)] else [])"

text \<open>
  The loop \<open>for (const [dr, dc] of directions)\<close> of \<open>getValidMoves\<close>, threading the
  two result arrays \<open>jumps\<close> and \<open>moves\<close>.
\<close>

fun scanDirections ::
  "board \<Rightarrow> int \<Rightarrow> int \<Rightarrow> int \<Rightarrow> (int \<times> int) option \<Rightarrow> (int \<times> int) list \<Rightarrow>
   move list \<Rightarrow> move list \<Rightarrow> error + (move list \<times> move list)" where
  "scanDirections b row col player mj [] jumps moves = Inr (jumps, moves)"
| "scanDirections b row col player mj (d # ds) jumps moves =
     (let nr = row + fst d; nc = col + snd d in
      if nr < 0 \<or> nr > 7 \<or> nc < 0 \<or> nc > 7
      then scanDirections b row col player mj ds jumps moves
      else
        (case rd b nr nc of
           Inl e \<Rightarrow> Inl e
         | Inr target \<Rightarrow>
             if isEnemy player target then
               (let jr = row + 2 * fst d; jc = col + 2 * snd d in
                if jr \<ge> 0 \<and> jr \<le> 7 \<and> jc \<ge> 0 \<and> jc \<le> 7 then
                  (case rd b jr jc of
                     Inl e \<Rightarrow> Inl e
                   | Inr beyond \<Rightarrow>
                       if \<not> truthy beyond
                       then scanDirections b row col player mj ds
                              (jumps @ [\<lparr>mv_from = (row, col), mv_to = (jr, jc),
                                         captured = Some (nr, nc)\<rparr>]) moves
                       else scanDirections b row col player mj ds jumps moves)
                else scanDirections b row col player mj ds jumps moves)
             else if \<not> truthy target \<and> mj = None then
               scanDirections b row col player mj ds jumps
                 (moves @ [\<lparr>mv_from = (row, col), mv_to = (nr, nc), captured = None\<rparr>])
             else scanDirections b row col player mj ds jumps moves))"

definition getValidMoves ::
  "board \<Rightarrow> int \<Rightarrow> int \<Rightarrow> (int \<times> int) option \<Rightarrow> error + move list" where
  "getValidMoves b row col mj =
     (case rd b row col of
        Inl e \<Rightarrow> Inl e
      | Inr piece \<Rightarrow>
          if \<not> truthy piece then Inr []
          else
            (case scanDirections b row col (playerOf piece) mj
                    (directions (playerOf piece) (isKingPiece piece)) [] [] of
               Inl e \<Rightarrow> Inl e
             | Inr (jumps, moves) \<Rightarrow>
                 (case mj of
                    Some m \<Rightarrow> if fst m = row \<and> snd m = col then Inr jumps else Inr []
                  | None \<Rightarrow> Inr (if length jumps > 0 then jumps else moves))))"

text \<open>
  The two nested loops of \<open>getAllValidMoves\<close> over \<open>r\<close> and \<open>c\<close> in 0..7, threading
  the array \<open>all\<close>.
\<close>

fun scanCols ::
  "board \<Rightarrow> int \<Rightarrow> (int \<times> int) option \<Rightarrow> int \<Rightarrow> int list \<Rightarrow> move list \<Rightarrow> error + move list" where
  "scanCols b player mj r [] allm = Inr allm"
| "scanCols b player mj r (c # cs) allm =
     (case rd b r c of
        Inl e \<Rightarrow> Inl e
      | Inr piece \<Rightarrow>
          if \<not> truthy piece then scanCols b player mj r cs allm
          else if playerOf piece \<noteq> player then scanCols b player mj r cs allm
          else
            (case getValidMoves b r c mj of
               Inl e \<Rightarrow> Inl e
             | Inr ms \<Rightarrow> scanCols b player mj r cs (allm @ ms)))"

fun scanRows ::
  "board \<Rightarrow> int \<Rightarrow> (int \<times> int) option \<Rightarrow> int list \<Rightarrow> move list \<Rightarrow> error + move list" where
  "scanRows b player mj [] allm = Inr allm"
| "scanRows b player mj (r # rs) allm =
     (case scanCols b player mj r idx8 allm of
        Inl e \<Rightarrow> Inl e
      | Inr allm' \<Rightarrow> scanRows b player mj rs allm')"

text \<open>\<open>m => m.captured\<close>: an array is truthy, \<open>null\<close> is falsy.\<close>

definition isCapture :: "move \<Rightarrow> bool" where
  "isCapture m = (captured m \<noteq> None)"

definition getAllValidMoves ::
  "board \<Rightarrow> int \<Rightarrow> (int \<times> int) option \<Rightarrow> error + move list" where
  "getAllValidMoves b player mj =
     (case scanRows b player mj idx8 [] of
        Inl e \<Rightarrow> Inl e
      | Inr allm \<Rightarrow>
          (let jumps = filter isCapture allm in
           Inr (if length jumps > 0 then jumps else allm)))"

text \<open>
  \<open>let newPiece = piece; if (piece === 1 && tr === 0) newPiece = 3;
  if (piece === 2 && tr === 7) newPiece = 4;\<close>
\<close>

definition promote :: "jsval \<Rightarrow> int \<Rightarrow> jsval" where
  "promote piece tr =
     (let newPiece = (if piece = Num 1 \<and> tr = 0 then Num 3 else piece)
      in if piece = Num 2 \<and> tr = 7 then Num 4 else newPiece)"

text \<open>
  \<open>applyMove\<close> mutates the game state in place, so a TypeError raised half-way leaves
  the writes made so far: the result is \<open>Inr\<close> the final state, or \<open>Inl\<close> the error
  together with the state as it stands when the error is raised.
\<close>

definition applyMove :: "gameState \<Rightarrow> move \<Rightarrow> (error \<times> gameState) + gameState" where
  "applyMove gs mv =
     (let fr = fst (mv_from mv); fc = snd (mv_from mv);
          tr = fst (mv_to mv); tc = snd (mv_to mv) in
      case rd (board gs) fr fc of
        Inl e \<Rightarrow> Inl (e, gs)
      | Inr piece \<Rightarrow>
      (case wr (board gs) fr fc (Num 0) of
        Inl e \<Rightarrow> Inl (e, gs)
      | Inr b1 \<Rightarrow>
      (case (case captured mv of
               None \<Rightarrow> Inr b1
             | Some cap \<Rightarrow> wr b1 (fst cap) (snd cap) (Num 0)) of
        Inl e \<Rightarrow> Inl (e, gs\<lparr>board := b1\<rparr>)
      | Inr b2 \<Rightarrow>
      (let newPiece = promote piece tr in
       case wr b2 tr tc newPiece of
        Inl e \<Rightarrow> Inl (e, gs\<lparr>board := b2\<rparr>)
      | Inr b3 \<Rightarrow>
      (case (if captured mv \<noteq> None \<and> newPiece = piece then
               (case getValidMoves b3 tr tc (Some (tr, tc)) of
                  Inl e \<Rightarrow> Inl e
                | Inr ms \<Rightarrow>
                    Inr (if length (filter isCapture ms) > 0 then Some (tr, tc) else None))
             else Inr None) of
        Inl e \<Rightarrow> Inl (e, gs\<lparr>board := b3\<rparr>)
      | Inr mustJump \<Rightarrow>
      (let gs1 =
             (case mustJump of
                None \<Rightarrow> gs\<lparr>board := b3,
                              currentTurn := (if currentTurn gs = 1 then 2 else 1),
                              mustJumpFrom := None\<rparr>
              | Some p \<Rightarrow> gs\<lparr>board := b3, mustJumpFrom := Some p\<rparr>);
           nextPlayer = currentTurn gs1 in
       case getAllValidMoves b3 nextPlayer (mustJumpFrom gs1) of
        Inl e \<Rightarrow> Inl (e, gs1)
      | Inr allMoves \<Rightarrow>
          Inr (if length allMoves = 0
               then gs1\<lparr>winner := Some (if nextPlayer = 1 then 2 else 1)\<rparr>
               else gs1)))))))"

section \<open>Rooms and sockets\<close>

text \<open>
  A room object \<open>{ players, gameState, rematchVotes }\<close>. \<open>rematchVotes\<close> is a
  JavaScript \<open>Set\<close> of socket ids, kept as the list of its members in insertion order;
  \<open>setAdd\<close> is \<open>Set.add\<close> and its \<open>size\<close> is the length of the list.
\<close>

record room =
  players :: "string list"
  gameState :: "gameState option"
  rematchVotes :: "string list"

definition setAdd :: "string list \<Rightarrow> string \<Rightarrow> string list" where
  "setAdd xs x = (if x \<in> set xs then xs else xs @ [x])"

text \<open>
  The properties of a socket that the server reads and writes: its id, and \<open>roomId\<close>
  and \<open>playerIndex\<close>, which are \<open>undefined\<close> until \<open>createRoom\<close> or \<open>joinRoom\<close>
  sets them.
\<close>

record socket =
  sock_id :: string
  roomId :: "string option"
  playerIndex :: "int option"

text \<open>
  The table \<open>const rooms = {}\<close> is a plain object: \<open>rooms k\<close> is its own property
  \<open>k\<close>. A lookup \<open>rooms[k]\<close> of a key that is not an own property falls through to
  \<open>Object.prototype\<close>, whose properties are listed in \<open>objectPrototypeKeys\<close>; each of
  them is a truthy value (a function, or the prototype object itself) that has none of
  the properties \<open>players\<close>, \<open>gameState\<close> and \<open>rematchVotes\<close>.
\<close>

type_synonym rooms = "string \<Rightarrow> room option"

definition objectPrototypeKeys :: "string list" where
  "objectPrototypeKeys =
     [''constructor'', ''__defineGetter__'', ''__defineSetter__'', ''hasOwnProperty'',
      ''__lookupGetter__'', ''__lookupSetter__'', ''isPrototypeOf'',
      ''propertyIsEnumerable'', ''toString'', ''valueOf'', ''__proto__'',
      ''toLocaleString'']"

datatype lookup = Missing | Inherited | Own room

definition roomsGet :: "rooms \<Rightarrow> string \<Rightarrow> lookup" where
  "roomsGet rs k =
     (case rs k of
        Some r \<Rightarrow> Own r
      | None \<Rightarrow> if k \<in> set objectPrototypeKeys then Inherited else Missing)"

text \<open>The property key that \<open>rooms[socket.roomId]\<close> looks up.\<close>

definition keyOf :: "string option \<Rightarrow> string" where
  "keyOf rid = (case rid of None \<Rightarrow> ''undefined'' | Some k \<Rightarrow> k)"

text \<open>
  \<open>Math.random().toString(36).substring(2, 8).toUpperCase()\<close>. The random number is
  an input: \<open>rnd\<close> is the string \<open>Math.random().toString(36)\<close>.
\<close>

definition upperChar :: "char \<Rightarrow> char" where
  "upperChar c =
     (let n = (of_char c :: nat) in if 97 \<le> n \<and> n \<le> 122 then char_of (n - 32) else c)"

definition generateRoomId :: "string \<Rightarrow> string" where
  "generateRoomId rnd = map upperChar (take 6 (drop 2 rnd))"

definition createRoom :: "string \<Rightarrow> rooms \<Rightarrow> socket \<Rightarrow> rooms \<times> socket \<times> string" where
  "createRoom rnd rs sock =
     (let rid = generateRoomId rnd in
      (rs(rid \<mapsto> \<lparr>players = [sock_id sock], gameState = None, rematchVotes = []\<rparr>),
       sock\<lparr>roomId := Some rid, playerIndex := Some 1\<rparr>,
       rid))"

definition joinRoom :: "rooms \<Rightarrow> socket \<Rightarrow> string \<Rightarrow> error + (rooms \<times> socket)" where
  "joinRoom rs sock rid =
     (case roomsGet rs rid of
        Missing \<Rightarrow> Inl (Error ''Room not found'')
      | Inherited \<Rightarrow> Inl TypeError
      | Own r \<Rightarrow>
          if length (players r) \<ge> 2 then Inl (Error ''Room is full'')
          else Inr (rs(rid \<mapsto> r\<lparr>players := players r @ [sock_id sock],
                                 gameState := Some createGameState\<rparr>),
                    sock\<lparr>roomId := Some rid, playerIndex := Some 2\<rparr>))"

text \<open>
  \<open>processRematchVote\<close> up to its \<open>await delay(300)\<close>: the part that runs without
  interruption. What follows the delay only emits \<open>gameStart\<close> and changes no state.
\<close>

definition processRematchVote :: "rooms \<Rightarrow> socket \<Rightarrow> error + rooms" where
  "processRematchVote rs sock =
     (let key = keyOf (roomId sock) in
      case roomsGet rs key of
        Missing \<Rightarrow> Inl (Error ''Room not found'')
      | Inherited \<Rightarrow> Inl TypeError
      | Own r \<Rightarrow>
          (let votes = setAdd (rematchVotes r) (sock_id sock) in
           if length votes \<ge> 2
           then Inr (rs(key \<mapsto> r\<lparr>gameState := Some createGameState, rematchVotes := []\<rparr>))
           else Inr (rs(key \<mapsto> r\<lparr>rematchVotes := votes\<rparr>))))"

text \<open>
  The \<open>makeMove\<close> handler. Its result is the room table afterwards and what the handler
  emits: nothing, \<open>invalidMove\<close>, \<open>gameStateUpdate\<close> or, from the \<open>catch\<close> block,
  \<open>error\<close>.
\<close>

datatype reply = Ignored | InvalidMove | GameStateUpdate gameState | ErrorReply error

definition truthyWinner :: "int option \<Rightarrow> bool" where
  "truthyWinner w = (case w of None \<Rightarrow> False | Some n \<Rightarrow> n \<noteq> 0)"

definition isValid :: "move list \<Rightarrow> move \<Rightarrow> bool" where
  "isValid valid mv = (\<exists>m \<in> set valid. mv_from m = mv_from mv \<and> mv_to m = mv_to mv)"

text \<open>
  \<open>socket.playerIndex\<close> as passed to \<open>getAllValidMoves\<close>. The handler gets there
  only when it equals \<open>gs.currentTurn\<close>, a number; the value for \<open>undefined\<close> is
  never used.
\<close>

definition keyPlayer :: "int option \<Rightarrow> int" where
  "keyPlayer p = (case p of None \<Rightarrow> 0 | Some n \<Rightarrow> n)"

definition makeMove :: "rooms \<Rightarrow> socket \<Rightarrow> move \<Rightarrow> rooms \<times> reply" where
  "makeMove rs sock mv =
     (let key = keyOf (roomId sock) in
      case roomsGet rs key of
        Missing \<Rightarrow> (rs, Ignored)
      | Inherited \<Rightarrow> (rs, Ignored)
      | Own r \<Rightarrow>
          (case gameState r of
             None \<Rightarrow> (rs, Ignored)
           | Some gs \<Rightarrow>
               if truthyWinner (winner gs) \<or> Some (currentTurn gs) \<noteq> playerIndex sock
               then (rs, Ignored)
               else
                 (case getAllValidMoves (board gs) (keyPlayer (playerIndex sock))
                         (mustJumpFrom gs) of
                    Inl e \<Rightarrow> (rs, ErrorReply e)
                  | Inr valid \<Rightarrow>
                      if \<not> isValid valid mv then (rs, InvalidMove)
                      else
                        (case applyMove gs mv of
                           Inl (e, gs') \<Rightarrow>
                             (rs(key \<mapsto> r\<lparr>gameState := Some gs'\<rparr>), ErrorReply e)
                         | Inr gs' \<Rightarrow>
                             (rs(key \<mapsto> r\<lparr>gameState := Some gs'\<rparr>),
                              GameStateUpdate gs')))))"

text \<open>The \<open>disconnect\<close> handler: \<open>if (roomId && rooms[roomId]) delete rooms[roomId]\<close>.\<close>

definition disconnect :: "rooms \<Rightarrow> socket \<Rightarrow> rooms" where
  "disconnect rs sock =
     (case roomId sock of
        None \<Rightarrow> rs
      | Some rid \<Rightarrow> if rid \<noteq> [] \<and> roomsGet rs rid \<noteq> Missing then rs(rid := None) else rs)"

section \<open>Notions used in the statements\<close>

text \<open>
  \<open>jumpOf b row col p d m\<close>: \<open>m\<close> is the capture that \<open>getValidMoves\<close> pushes for the
  direction \<open>d\<close> of the piece of player \<open>p\<close> at \<open>(row, col)\<close>, and the conditions under
  which it pushes it hold. \<open>stepOf\<close> is the same for a simple move.
\<close>

definition jumpOf :: "board \<Rightarrow> int \<Rightarrow> int \<Rightarrow> int \<Rightarrow> (int \<times> int) \<Rightarrow> move \<Rightarrow> bool" where
  "jumpOf b row col p d m =
     (m = \<lparr>mv_from = (row, col), mv_to = (row + 2 * fst d, col + 2 * snd d),
           captured = Some (row + fst d, col + snd d)\<rparr> \<and>
      inGrid (row + fst d, col + snd d) \<and> inGrid (row + 2 * fst d, col + 2 * snd d) \<and>
      isEnemy p (b (row + fst d) (col + snd d)) \<and>
      \<not> truthy (b (row + 2 * fst d) (col + 2 * snd d)))"

definition stepOf :: "board \<Rightarrow> int \<Rightarrow> int \<Rightarrow> (int \<times> int) option \<Rightarrow> (int \<times> int) \<Rightarrow> move \<Rightarrow> bool" where
  "stepOf b row col mj d m =
     (m = \<lparr>mv_from = (row, col), mv_to = (row + fst d, col + snd d), captured = None\<rparr> \<and>
      inGrid (row + fst d, col + snd d) \<and>
      \<not> truthy (b (row + fst d) (col + snd d)) \<and> mj = None)"

text \<open>
  What the body of the loops of \<open>getAllValidMoves\<close> adds for the cell \<open>(r, c)\<close>, and
  the union over all cells of the grid.
\<close>

definition cellMoves :: "board \<Rightarrow> int \<Rightarrow> (int \<times> int) option \<Rightarrow> int \<Rightarrow> int \<Rightarrow> move set" where
  "cellMoves b player mj r c =
     (if truthy (b r c) \<and> playerOf (b r c) = player
      then (case getValidMoves b r c mj of Inr ms \<Rightarrow> set ms | Inl e \<Rightarrow> {})
      else {})"

definition allCellMoves :: "board \<Rightarrow> int \<Rightarrow> (int \<times> int) option \<Rightarrow> move set" where
  "allCellMoves b player mj = (\<Union>r \<in> set idx8. \<Union>c \<in> set idx8. cellMoves b player mj r c)"

text \<open>
  The board after the three writes of \<open>applyMove\<close>, and the condition under which
  \<open>applyMove\<close> keeps the turn: the move is a capture, the piece was not promoted by
  it, and \<open>getValidMoves\<close> finds a capture for it from the destination.
\<close>

definition clearCaptured :: "board \<Rightarrow> (int \<times> int) option \<Rightarrow> board" where
  "clearCaptured b cap = (case cap of None \<Rightarrow> b | Some p \<Rightarrow> setCell b (fst p) (snd p) (Num 0))"

definition movedBoard :: "board \<Rightarrow> move \<Rightarrow> board" where
  "movedBoard b mv =
     setCell (clearCaptured (setCell b (fst (mv_from mv)) (snd (mv_from mv)) (Num 0)) (captured mv))
       (fst (mv_to mv)) (snd (mv_to mv))
       (promote (b (fst (mv_from mv)) (snd (mv_from mv))) (fst (mv_to mv)))"

definition furtherCapture :: "board \<Rightarrow> int \<times> int \<Rightarrow> bool" where
  "furtherCapture b p =
     (case getValidMoves b (fst p) (snd p) (Some p) of
        Inr ms \<Rightarrow> filter isCapture ms \<noteq> []
      | Inl e \<Rightarrow> False)"

definition continues :: "board \<Rightarrow> move \<Rightarrow> bool" where
  "continues b mv =
     (captured mv \<noteq> None \<and>
      promote (b (fst (mv_from mv)) (snd (mv_from mv))) (fst (mv_to mv)) =
        b (fst (mv_from mv)) (snd (mv_from mv)) \<and>
      furtherCapture (movedBoard b mv) (mv_to mv))"

text \<open>
  The position of the session that a socket's requests address, if there is one, and
  observations of the room stored under a token: its position, a cell of its board, and
  its vote set.
\<close>

definition sessionPosition :: "rooms \<Rightarrow> socket \<Rightarrow> gameState option" where
  "sessionPosition rs sock =
     (case roomsGet rs (keyOf (roomId sock)) of
        Own r \<Rightarrow> gameState r
      | Inherited \<Rightarrow> None
      | Missing \<Rightarrow> None)"

definition positionAt :: "rooms \<Rightarrow> string \<Rightarrow> gameState option" where
  "positionAt rs k = (case rs k of Some r \<Rightarrow> gameState r | None \<Rightarrow> None)"

definition cellAt :: "rooms \<Rightarrow> string \<Rightarrow> int \<Rightarrow> int \<Rightarrow> jsval option" where
  "cellAt rs k r c = (case positionAt rs k of Some g \<Rightarrow> Some (board g r c) | None \<Rightarrow> None)"

definition turnAt :: "rooms \<Rightarrow> string \<Rightarrow> int option" where
  "turnAt rs k = (case positionAt rs k of Some g \<Rightarrow> Some (currentTurn g) | None \<Rightarrow> None)"

definition winnerAt :: "rooms \<Rightarrow> string \<Rightarrow> int option option" where
  "winnerAt rs k = (case positionAt rs k of Some g \<Rightarrow> Some (winner g) | None \<Rightarrow> None)"

definition votesAt :: "rooms \<Rightarrow> string \<Rightarrow> string list option" where
  "votesAt rs k = (case rs k of Some r \<Rightarrow> Some (rematchVotes r) | None \<Rightarrow> None)"

definition playersAt :: "rooms \<Rightarrow> string \<Rightarrow> string list option" where
  "playersAt rs k = (case rs k of Some r \<Rightarrow> Some (players r) | None \<Rightarrow> None)"

text \<open>The error that a reply of the \<open>makeMove\<close> handler reports, if it is one.\<close>

definition replyError :: "reply \<Rightarrow> error option" where
  "replyError rp =
     (case rp of
        ErrorReply e \<Rightarrow> Some e
      | Ignored \<Rightarrow> None
      | InvalidMove \<Rightarrow> None
      | GameStateUpdate g \<Rightarrow> None)"

text \<open>The number of grid cells of a board that hold a given value.\<close>

definition countCells :: "board \<Rightarrow> jsval \<Rightarrow> nat" where
  "countCells b v = length (filter (\<lambda>p. b (fst p) (snd p) = v) (List.product idx8 idx8))"

text \<open>
  Some piece of the player on the grid has a capture among its own valid moves.
\<close>

definition captureAvailable :: "board \<Rightarrow> int \<Rightarrow> (int \<times> int) option \<Rightarrow> bool" where
  "captureAvailable b player mj =
     (\<exists>r \<in> set idx8. \<exists>c \<in> set idx8.
        truthy (b r c) \<and> playerOf (b r c) = player \<and>
        (case getValidMoves b r c mj of
           Inr pm \<Rightarrow> \<exists>m \<in> set pm. captured m \<noteq> None
         | Inl e \<Rightarrow> False))"

section \<open>Example positions\<close>

text \<open>A board given by its eight rows of eight numbers.\<close>

definition boardOf :: "int list list \<Rightarrow> board" where
  "boardOf rows = (\<lambda>r c. if inGrid (r, c) then Num (rows ! nat r ! nat c) else Undefined)"

text \<open>
  Player 1's man on (5, 2) can capture (4, 3) and then (2, 5); its man on (7, 0) has a
  simple move.
\<close>

definition chainBoard :: board where
  "chainBoard = boardOf
     [[0, 2, 0, 0, 0, 0, 0, 0],
      [0, 0, 0, 0, 0, 0, 0, 0],
      [0, 0, 0, 0, 0, 2, 0, 0],
      [0, 0, 0, 0, 0, 0, 0, 0],
      [0, 0, 0, 2, 0, 0, 0, 0],
      [0, 0, 1, 0, 0, 0, 0, 0],
      [0, 0, 0, 0, 0, 0, 0, 0],
      [1, 0, 0, 0, 0, 0, 0, 0]]"

text \<open>
  Player 1's man on (2, 1) can capture (1, 2) and lands on (0, 3), its farthest rank;
  from there a king can capture (1, 4).
\<close>

definition promoBoard :: board where
  "promoBoard = boardOf
     [[0, 0, 0, 0, 0, 0, 0, 0],
      [0, 0, 2, 0, 2, 0, 0, 0],
      [0, 1, 0, 0, 0, 0, 0, 0],
      [0, 0, 0, 0, 0, 0, 0, 0],
      [0, 0, 0, 0, 0, 0, 0, 0],
      [0, 0, 0, 0, 0, 0, 0, 0],
      [0, 0, 0, 0, 0, 0, 0, 0],
      [0, 0, 0, 0, 0, 0, 0, 0]]"

text \<open>Player 2's last piece, on (4, 3), can be captured by the man on (5, 2).\<close>

definition lastPieceBoard :: board where
  "lastPieceBoard = boardOf
     [[0, 0, 0, 0, 0, 0, 0, 0],
      [0, 0, 0, 0, 0, 0, 0, 0],
      [0, 0, 0, 0, 0, 0, 0, 0],
      [0, 0, 0, 0, 0, 0, 0, 0],
      [0, 0, 0, 2, 0, 0, 0, 0],
      [0, 0, 1, 0, 0, 0, 0, 0],
      [0, 0, 0, 0, 0, 0, 0, 0],
      [0, 0, 0, 0, 0, 0, 0, 0]]"

text \<open>
  Player 1's king on (6, 3) can move to (7, 2); player 2's only piece, the man on (6, 1),
  then has no move: both cells in front of it are occupied and there is no row behind
  them.
\<close>

definition blockadeBoard :: board where
  "blockadeBoard = boardOf
     [[0, 0, 0, 0, 0, 0, 0, 0],
      [0, 0, 0, 0, 0, 0, 0, 0],
      [0, 0, 0, 0, 0, 0, 0, 0],
      [0, 0, 0, 0, 0, 0, 0, 0],
      [0, 0, 0, 0, 0, 0, 0, 0],
      [0, 0, 1, 0, 0, 0, 0, 0],
      [0, 2, 0, 3, 0, 0, 0, 0],
      [1, 0, 0, 0, 0, 0, 0, 0]]"

text \<open>A game in progress on a given board, with the given player to move.\<close>

definition gameOn :: "board \<Rightarrow> int \<Rightarrow> gameState" where
  "gameOn b player = \<lparr>board = b, currentTurn = player, winner = None, mustJumpFrom = None\<rparr>"

text \<open>
  The position after the capture on \<open>lastPieceBoard\<close>: player 2 has no piece left and
  player 1 has won.
\<close>

definition finishedGame :: gameState where
  "finishedGame =
     \<lparr>board = movedBoard lastPieceBoard
                \<lparr>mv_from = (5, 2), mv_to = (3, 4), captured = Some (4, 3)\<rparr>,
      currentTurn = 2, winner = Some 1, mustJumpFrom = None\<rparr>"

text \<open>
  Two sockets in the room \<open>AB12CD\<close>: \<open>player1\<close> created it and \<open>player2\<close> joined it.
  \<open>roomWith g votes\<close> is their room holding the position \<open>g\<close> and the votes \<open>votes\<close>.
\<close>

definition player1 :: socket where
  "player1 = \<lparr>sock_id = ''s1'', roomId = Some ''AB12CD'', playerIndex = Some 1\<rparr>"

definition player2 :: socket where
  "player2 = \<lparr>sock_id = ''s2'', roomId = Some ''AB12CD'', playerIndex = Some 2\<rparr>"

definition roomWith :: "gameState \<Rightarrow> string list \<Rightarrow> rooms" where
  "roomWith g votes =
     Map.empty(''AB12CD'' \<mapsto> \<lparr>players = [''s1'', ''s2''], gameState = Some g,
                                rematchVotes = votes\<rparr>)"

text \<open>The room table after player 1's first move from (5, 0) to (4, 1).\<close>

definition afterFirstMove :: rooms where
  "afterFirstMove =
     fst (makeMove (roomWith createGameState []) player1
            \<lparr>mv_from = (5, 0), mv_to = (4, 1), captured = None\<rparr>)"

text \<open>A socket that has neither created nor joined a room.\<close>

definition newcomer :: socket where
  "newcomer = \<lparr>sock_id = ''s3'', roomId = None, playerIndex = None\<rparr>"

section \<open>Move generation\<close>

lemma rd_inGrid: "0 \<le> r \<Longrightarrow> r \<le> 7 \<Longrightarrow> rd b r c = Inr (b r c)"
  by (simp add: rd_def)

lemma scanDirections_total:
  "\<exists>js ms. scanDirections b row col p mj ds jumps moves = Inr (js, ms)"
  by (induction ds arbitrary: jumps moves) (auto simp: Let_def rd_def)

lemma scanDirections_set:
  "scanDirections b row col p mj ds jumps moves = Inr (js, ms) \<Longrightarrow>
   set js = set jumps \<union> {m. \<exists>d \<in> set ds. jumpOf b row col p d m} \<and>
   set ms = set moves \<union> {m. \<exists>d \<in> set ds. stepOf b row col mj d m \<and> \<not> isEnemy p (b (row + fst d) (col + snd d))}"
proof (induction ds arbitrary: jumps moves)
  case Nil
  then show ?case by simp
next
  case (Cons d ds)
  show ?case
    using Cons.prems Cons.IH
    apply (simp add: Let_def rd_def split: if_splits)
    apply (auto simp: jumpOf_def stepOf_def inGrid_def)
    done
qed

lemma directions_unit:
  "d \<in> set (directions p k) \<Longrightarrow> (fst d = -1 \<or> fst d = 1) \<and> (snd d = -1 \<or> snd d = 1)"
  by (auto simp: directions_def split: if_splits)

lemma getValidMoves_total:
  "0 \<le> row \<Longrightarrow> row \<le> 7 \<Longrightarrow> \<exists>ms. getValidMoves b row col mj = Inr ms"
  using scanDirections_total[of b row col "playerOf (b row col)" mj
      "directions (playerOf (b row col)) (isKingPiece (b row col))" "[]" "[]"]
  by (auto simp: getValidMoves_def rd_def split: option.splits)

lemma getValidMoves_row:
  "getValidMoves b row col mj = Inr ms \<Longrightarrow> 0 \<le> row \<and> row \<le> 7"
  by (auto simp: getValidMoves_def rd_def split: if_splits)

lemma getValidMoves_member:
  assumes "getValidMoves b row col mj = Inr ms" and "m \<in> set ms"
  shows "truthy (b row col) \<and>
         (\<exists>d \<in> set (directions (playerOf (b row col)) (isKingPiece (b row col))).
            jumpOf b row col (playerOf (b row col)) d m \<or> stepOf b row col mj d m)"
proof -
  from assms have row: "0 \<le> row" "row \<le> 7" and piece: "truthy (b row col)"
    by (auto simp: getValidMoves_def rd_def split: if_splits)
  obtain js ss where sd: "scanDirections b row col (playerOf (b row col)) mj
      (directions (playerOf (b row col)) (isKingPiece (b row col))) [] [] = Inr (js, ss)"
    using scanDirections_total by blast
  from assms row piece sd have "m \<in> set js \<or> m \<in> set ss"
    by (auto simp: getValidMoves_def rd_def split: option.splits if_splits)
  with scanDirections_set[OF sd] piece show ?thesis by auto
qed

lemma getValidMoves_forced:
  assumes "getValidMoves b row col (Some p) = Inr ms" and "m \<in> set ms"
  shows "isCapture m"
  using getValidMoves_member[OF assms]
  by (auto simp: jumpOf_def stepOf_def isCapture_def)

lemma getValidMoves_uniform:
  assumes "getValidMoves b row col mj = Inr ms"
  shows "(\<forall>m \<in> set ms. isCapture m) \<or> (\<forall>m \<in> set ms. \<not> isCapture m)"
proof -
  from assms have row: "0 \<le> row" "row \<le> 7"
    by (auto simp: getValidMoves_def rd_def split: if_splits)
  obtain js ss where sd: "scanDirections b row col (playerOf (b row col)) mj
      (directions (playerOf (b row col)) (isKingPiece (b row col))) [] [] = Inr (js, ss)"
    using scanDirections_total by blast
  have js: "\<forall>m \<in> set js. isCapture m" and ss: "\<forall>m \<in> set ss. \<not> isCapture m"
    using scanDirections_set[OF sd] by (auto simp: jumpOf_def stepOf_def isCapture_def)
  from assms row sd have "ms = [] \<or> ms = js \<or> ms = ss"
    by (auto simp: getValidMoves_def rd_def split: option.splits if_splits)
  with js ss show ?thesis by auto
qed

lemma scanCols_set:
  assumes "0 \<le> r" and "r \<le> 7"
  shows "\<exists>res. scanCols b p mj r cs allm = Inr res \<and>
           set res = set allm \<union> (\<Union>c \<in> set cs. cellMoves b p mj r c)"
proof (induction cs arbitrary: allm)
  case Nil
  then show ?case by simp
next
  case (Cons c cs)
  obtain ms where ms: "getValidMoves b r c mj = Inr ms"
    using getValidMoves_total[OF assms] by blast
  show ?case
  proof (cases "truthy (b r c) \<and> playerOf (b r c) = p")
    case True
    with Cons.IH[of "allm @ ms"] ms assms show ?thesis
      by (auto simp: rd_def cellMoves_def)
  next
    case False
    with Cons.IH[of allm] assms show ?thesis
      by (auto simp: rd_def cellMoves_def)
  qed
qed

lemma scanRows_set:
  assumes "\<forall>r \<in> set rs. 0 \<le> r \<and> r \<le> 7"
  shows "\<exists>res. scanRows b p mj rs allm = Inr res \<and>
           set res = set allm \<union> (\<Union>r \<in> set rs. \<Union>c \<in> set idx8. cellMoves b p mj r c)"
  using assms
proof (induction rs arbitrary: allm)
  case Nil
  then show ?case by simp
next
  case (Cons r rs)
  then have r: "0 \<le> r" "r \<le> 7" by auto
  obtain res1 where res1: "scanCols b p mj r idx8 allm = Inr res1"
    "set res1 = set allm \<union> (\<Union>c \<in> set idx8. cellMoves b p mj r c)"
    using scanCols_set[OF r] by blast
  from Cons.IH[of res1] Cons.prems obtain res where
    "scanRows b p mj rs res1 = Inr res"
    "set res = set res1 \<union> (\<Union>r \<in> set rs. \<Union>c \<in> set idx8. cellMoves b p mj r c)"
    by auto
  with res1 show ?case by auto
qed

lemma getAllValidMoves_set:
  "\<exists>ms. getAllValidMoves b p mj = Inr ms \<and>
      set ms = (if \<exists>m \<in> allCellMoves b p mj. isCapture m
                then {m \<in> allCellMoves b p mj. isCapture m}
                else allCellMoves b p mj)"
proof -
  have "\<forall>r \<in> set idx8. 0 \<le> r \<and> r \<le> 7" by (simp add: idx8_def)
  from scanRows_set[OF this, of b p mj "[]"] obtain res where
    res: "scanRows b p mj idx8 [] = Inr res" "set res = allCellMoves b p mj"
    by (auto simp: allCellMoves_def)
  show ?thesis
  proof (cases "filter isCapture res = []")
    case True
    then have "\<not> (\<exists>m \<in> set res. isCapture m)" by (simp add: filter_empty_conv)
    with res True show ?thesis by (simp add: getAllValidMoves_def Let_def)
  next
    case False
    then have "\<exists>m \<in> set res. isCapture m" by (simp add: filter_empty_conv)
    with res False show ?thesis by (auto simp add: getAllValidMoves_def Let_def)
  qed
qed

lemma allCellMoves_forced:
  assumes "m \<in> allCellMoves b player (Some p)"
  shows "isCapture m"
proof -
  from assms obtain r c where "m \<in> cellMoves b player (Some p) r c"
    unfolding allCellMoves_def by blast
  then obtain pm where "getValidMoves b r c (Some p) = Inr pm" "m \<in> set pm"
    by (cases "getValidMoves b r c (Some p)") (auto simp: cellMoves_def split: if_splits)
  then show ?thesis by (rule getValidMoves_forced)
qed

section \<open>Applying a move\<close>

lemma applyMove_returns:
  assumes fr: "0 \<le> fst (mv_from mv)" "fst (mv_from mv) \<le> 7"
    and tr: "0 \<le> fst (mv_to mv)" "fst (mv_to mv) \<le> 7"
    and cap: "\<And>p. captured mv = Some p \<Longrightarrow> 0 \<le> fst p \<and> fst p \<le> 7"
  shows "\<exists>gs'. applyMove gs mv = Inr gs' \<and>
           board gs' = movedBoard (board gs) mv \<and>
           (if continues (board gs) mv
            then currentTurn gs' = currentTurn gs \<and> mustJumpFrom gs' = Some (mv_to mv)
            else currentTurn gs' = (if currentTurn gs = 1 then 2 else 1) \<and>
                 mustJumpFrom gs' = None) \<and>
           (if getAllValidMoves (board gs') (currentTurn gs') (mustJumpFrom gs') = Inr []
            then winner gs' = Some (if currentTurn gs' = 1 then 2 else 1)
            else winner gs' = winner gs)"
proof -
  define b3 where "b3 = movedBoard (board gs) mv"
  obtain fm where fm: "getValidMoves b3 (fst (mv_to mv)) (snd (mv_to mv)) (Some (mv_to mv)) = Inr fm"
    using getValidMoves_total[OF tr] by blast
  define gs1 where "gs1 =
    (if continues (board gs) mv then gs\<lparr>board := b3, mustJumpFrom := Some (mv_to mv)\<rparr>
     else gs\<lparr>board := b3, currentTurn := (if currentTurn gs = 1 then 2 else 1), mustJumpFrom := None\<rparr>)"
  obtain am where am: "getAllValidMoves b3 (currentTurn gs1) (mustJumpFrom gs1) = Inr am"
    using getAllValidMoves_set by blast
  have cont: "continues (board gs) mv \<longleftrightarrow>
      captured mv \<noteq> None \<and>
      promote (board gs (fst (mv_from mv)) (snd (mv_from mv))) (fst (mv_to mv)) =
        board gs (fst (mv_from mv)) (snd (mv_from mv)) \<and> filter isCapture fm \<noteq> []"
    using fm by (auto simp: continues_def furtherCapture_def b3_def)
  have wr2: "(case captured mv of None \<Rightarrow> Inr b1 | Some capd \<Rightarrow> wr b1 (fst capd) (snd capd) (Num 0))
      = Inr (clearCaptured b1 (captured mv))" for b1
    using cap by (auto simp: wr_def clearCaptured_def split: option.splits)
  have res: "applyMove gs mv =
     Inr (if length am = 0 then gs1\<lparr>winner := Some (if currentTurn gs1 = 1 then 2 else 1)\<rparr> else gs1)"
    unfolding applyMove_def
    using fr tr fm am cont
    apply (simp add: rd_def wr_def[of _ "fst (mv_from mv)"] wr_def[of _ "fst (mv_to mv)"] wr2 Let_def
        b3_def[symmetric, unfolded movedBoard_def] del: One_nat_def)
    apply (cases "continues (board gs) mv")
     apply (auto simp: gs1_def b3_def movedBoard_def)
    done
  show ?thesis
    unfolding res using am
    by (auto simp: gs1_def b3_def)
qed

lemma legal_move_origin:
  assumes "getAllValidMoves b p mj = Inr ms" and "m \<in> set ms"
  shows "\<exists>r \<in> set idx8. \<exists>c \<in> set idx8. truthy (b r c) \<and> playerOf (b r c) = p \<and>
           (\<exists>pm. getValidMoves b r c mj = Inr pm \<and> m \<in> set pm)"
proof -
  from getAllValidMoves_set[of b p mj] assms have "m \<in> allCellMoves b p mj"
    by (auto split: if_splits)
  then obtain r c where rc: "r \<in> set idx8" "c \<in> set idx8" and mc: "m \<in> cellMoves b p mj r c"
    unfolding allCellMoves_def by blast
  from mc have "truthy (b r c) \<and> playerOf (b r c) = p"
    by (auto simp: cellMoves_def split: if_splits)
  moreover from mc obtain pm where "getValidMoves b r c mj = Inr pm" "m \<in> set pm"
    by (cases "getValidMoves b r c mj") (auto simp: cellMoves_def split: if_splits)
  ultimately show ?thesis using rc by blast
qed

lemma applyMove_bad_origin:
  assumes "\<not> (0 \<le> fst (mv_from mv) \<and> fst (mv_from mv) \<le> 7)"
  shows "applyMove gs mv = Inl (TypeError, gs)"
proof -
  from assms have "rd (board gs) (fst (mv_from mv)) (snd (mv_from mv)) = Inl TypeError"
    by (auto simp: rd_def)
  then show ?thesis by (simp add: applyMove_def Let_def)
qed

lemma applyMove_bad_captured:
  assumes "0 \<le> fst (mv_from mv)" "fst (mv_from mv) \<le> 7"
    and "captured mv = Some p" and "\<not> (0 \<le> fst p \<and> fst p \<le> 7)"
  shows "applyMove gs mv =
           Inl (TypeError, gs\<lparr>board := setCell (board gs) (fst (mv_from mv)) (snd (mv_from mv)) (Num 0)\<rparr>)"
proof -
  from assms have "wr b (fst p) (snd p) v = Inl TypeError" for b v
    by (auto simp: wr_def)
  with assms(1-3) show ?thesis by (simp add: applyMove_def rd_def wr_def Let_def)
qed

lemma applyMove_bad_destination:
  assumes "0 \<le> fst (mv_from mv)" "fst (mv_from mv) \<le> 7"
    and "\<And>p. captured mv = Some p \<Longrightarrow> 0 \<le> fst p \<and> fst p \<le> 7"
    and "\<not> (0 \<le> fst (mv_to mv) \<and> fst (mv_to mv) \<le> 7)"
  shows "applyMove gs mv =
           Inl (TypeError, gs\<lparr>board := clearCaptured
                  (setCell (board gs) (fst (mv_from mv)) (snd (mv_from mv)) (Num 0)) (captured mv)\<rparr>)"
proof -
  from assms(4) have bad: "wr b (fst (mv_to mv)) c v = Inl TypeError" for b c v
    by (auto simp: wr_def)
  show ?thesis
  proof (cases "captured mv")
    case None
    with assms(1,2) bad show ?thesis
      by (simp add: applyMove_def rd_def wr_def[of _ "fst (mv_from mv)"] clearCaptured_def Let_def)
  next
    case (Some p)
    with assms(3)[of p] have "0 \<le> fst p \<and> fst p \<le> 7" by simp
    with Some assms(1,2) bad show ?thesis
      by (simp add: applyMove_def rd_def wr_def[of _ "fst (mv_from mv)"] wr_def[of _ "fst p"]
          clearCaptured_def Let_def)
  qed
qed

lemma applyMove_Inr_rows:
  assumes "applyMove gs mv = Inr gs'"
  shows "0 \<le> fst (mv_from mv) \<and> fst (mv_from mv) \<le> 7 \<and>
         0 \<le> fst (mv_to mv) \<and> fst (mv_to mv) \<le> 7 \<and>
         (\<forall>p. captured mv = Some p \<longrightarrow> 0 \<le> fst p \<and> fst p \<le> 7)"
proof -
  have fr: "0 \<le> fst (mv_from mv) \<and> fst (mv_from mv) \<le> 7"
    using assms applyMove_bad_origin[of mv gs] by auto
  have cap: "0 \<le> fst p \<and> fst p \<le> 7" if "captured mv = Some p" for p
    using assms fr that applyMove_bad_captured[of mv p gs] by auto
  have "0 \<le> fst (mv_to mv) \<and> fst (mv_to mv) \<le> 7"
    using assms fr cap applyMove_bad_destination[of mv gs] by auto
  with fr cap show ?thesis by blast
qed

lemma jumpOf_geometry:
  assumes "jumpOf b row col p d m" and "d \<in> set (directions p' k)"
  shows "mv_from m = (row, col) \<and> captured m = Some (row + fst d, col + snd d) \<and>
         mv_to m = (row + 2 * fst d, col + 2 * snd d) \<and>
         inGrid (row + fst d, col + snd d) \<and> inGrid (mv_to m) \<and>
         (row + fst d, col + snd d) \<noteq> (row, col) \<and>
         mv_to m \<noteq> (row, col) \<and> mv_to m \<noteq> (row + fst d, col + snd d) \<and>
         \<not> truthy (b (row + 2 * fst d) (col + 2 * snd d))"
  using assms directions_unit[OF assms(2)] by (auto simp: jumpOf_def)

lemma stepOf_geometry:
  assumes "stepOf b row col mj d m" and "d \<in> set (directions p' k)"
  shows "mv_from m = (row, col) \<and> captured m = None \<and>
         mv_to m = (row + fst d, col + snd d) \<and> inGrid (mv_to m) \<and>
         mv_to m \<noteq> (row, col) \<and> \<not> truthy (b (row + fst d) (col + snd d))"
  using assms directions_unit[OF assms(2)] by (auto simp: stepOf_def)

lemma promote_truthy: "truthy piece \<Longrightarrow> truthy (promote piece tr)"
  by (auto simp: promote_def Let_def)

section \<open>Sessions\<close>

lemma getAllValidMoves_total: "\<exists>ms. getAllValidMoves b p mj = Inr ms"
  using getAllValidMoves_set by blast

lemma keyPlayer_turn:
  "Some t = playerIndex sock \<Longrightarrow> keyPlayer (playerIndex sock) = t"
  by (auto simp: keyPlayer_def split: option.splits)

lemma initial_layout:
  "countCells createInitialBoard (Num 1) = 12 \<and>
   countCells createInitialBoard (Num 2) = 12 \<and>
   countCells createInitialBoard (Num 0) = 40"
  by code_simp

lemma upperChar_not_lower:
  "\<not> (97 \<le> (of_char (upperChar c) :: nat) \<and> (of_char (upperChar c) :: nat) \<le> 122)"
  by (auto simp: upperChar_def Let_def)

lemma generateRoomId_length: "length (generateRoomId rnd) \<le> 6"
  by (simp add: generateRoomId_def)

lemma generateRoomId_chars:
  "c \<in> set (generateRoomId rnd) \<Longrightarrow> \<not> (97 \<le> (of_char c :: nat) \<and> (of_char c :: nat) \<le> 122)"
  using upperChar_not_lower by (auto simp: generateRoomId_def)

lemma generateRoomId_not_inherited: "generateRoomId rnd \<notin> set objectPrototypeKeys"
proof
  assume a: "generateRoomId rnd \<in> set objectPrototypeKeys"
  have "\<forall>k \<in> set objectPrototypeKeys. \<exists>c \<in> set k. 97 \<le> (of_char c :: nat) \<and> (of_char c :: nat) \<le> 122"
    by (simp add: objectPrototypeKeys_def)
  with a obtain c where "c \<in> set (generateRoomId rnd)" "97 \<le> (of_char c :: nat) \<and> (of_char c :: nat) \<le> 122"
    by blast
  with generateRoomId_chars show False by blast
qed

text \<open>
  What \<open>joinRoom\<close> does for the tokens that are not a property name of
  \<open>Object.prototype\<close>, and for registered rooms.
\<close>

lemma joinRoom_not_found:
  "rs rid = None \<Longrightarrow> rid \<notin> set objectPrototypeKeys \<Longrightarrow>
   joinRoom rs sock rid = Inl (Error ''Room not found'')"
  by (simp add: joinRoom_def roomsGet_def)

lemma joinRoom_full:
  "rs rid = Some r \<Longrightarrow> length (players r) \<ge> 2 \<Longrightarrow>
   joinRoom rs sock rid = Inl (Error ''Room is full'')"
  by (simp add: joinRoom_def roomsGet_def)

lemma joinRoom_success:
  "rs rid = Some r \<Longrightarrow> length (players r) < 2 \<Longrightarrow>
   joinRoom rs sock rid =
     Inr (rs(rid \<mapsto> r\<lparr>players := players r @ [sock_id sock],
                         gameState := Some createGameState\<rparr>),
          sock\<lparr>roomId := Some rid, playerIndex := Some 2\<rparr>)"
  by (simp add: joinRoom_def roomsGet_def)

text \<open>
  The room of the examples is what \<open>createRoom\<close> and \<open>joinRoom\<close> produce.
\<close>

lemma example_room_reachable:
  "joinRoom
     (fst (createRoom ''0.ab12cdx9k'' Map.empty
             \<lparr>sock_id = ''s1'', roomId = None, playerIndex = None\<rparr>))
     \<lparr>sock_id = ''s2'', roomId = None, playerIndex = None\<rparr> ''AB12CD'' =
   Inr (roomWith createGameState [], player2)"
proof -
  have gen: "generateRoomId ''0.ab12cdx9k'' = ''AB12CD''"
    by code_simp
  show ?thesis
    by (simp add: createRoom_def gen Let_def joinRoom_def roomsGet_def roomWith_def player2_def)
qed

text \<open>
  When the handler accepts a move, the room holds afterwards the state that
  \<open>applyMove\<close> leaves for the submitted move object.
\<close>

lemma makeMove_accepted:
  assumes "roomsGet rs (keyOf (roomId sock)) = Own r" and "gameState r = Some gs"
    and "\<not> truthyWinner (winner gs)" and "Some (currentTurn gs) = playerIndex sock"
    and "getAllValidMoves (board gs) (currentTurn gs) (mustJumpFrom gs) = Inr valid"
    and "isValid valid mv"
  shows "makeMove rs sock mv =
           (case applyMove gs mv of
              Inl (e, gs') \<Rightarrow>
                (rs(keyOf (roomId sock) \<mapsto> r\<lparr>gameState := Some gs'\<rparr>), ErrorReply e)
            | Inr gs' \<Rightarrow>
                (rs(keyOf (roomId sock) \<mapsto> r\<lparr>gameState := Some gs'\<rparr>), GameStateUpdate gs'))"
  using assms keyPlayer_turn[OF assms(4)]
  by (simp add: makeMove_def Let_def)

section \<open>Claims\<close>

text \<open>
  C1. For every board, player and forced continuation, \<open>getAllValidMoves\<close> returns a
  list, and that list contains a non-capturing move only if it contains no capturing
  move; whenever some piece of the player on the grid has a capture among its valid
  moves (with the forced continuation taken into account or not), and whenever a forced
  continuation is set, every returned move has its \<open>captured\<close> field set.
\<close>

theorem mandatory_capture:
  "\<exists>ms. getAllValidMoves b player mj = Inr ms \<and>
     ((\<exists>m \<in> set ms. captured m = None) \<longrightarrow> (\<forall>m \<in> set ms. captured m = None)) \<and>
     (captureAvailable b player mj \<or> captureAvailable b player None \<or> mj \<noteq> None \<longrightarrow>
        (\<forall>m \<in> set ms. captured m \<noteq> None))"
proof -
  obtain ms where ms: "getAllValidMoves b player mj = Inr ms"
    and set_ms: "set ms = (if \<exists>m \<in> allCellMoves b player mj. isCapture m
                then {m \<in> allCellMoves b player mj. isCapture m}
                else allCellMoves b player mj)"
    using getAllValidMoves_set by blast
  have one: "(\<exists>m \<in> set ms. captured m = None) \<longrightarrow> (\<forall>m \<in> set ms. captured m = None)"
  proof (cases "\<exists>m \<in> allCellMoves b player mj. isCapture m")
    case True
    with set_ms have "\<forall>m \<in> set ms. isCapture m" by simp
    then show ?thesis unfolding isCapture_def by blast
  next
    case False
    with set_ms have "\<forall>m \<in> set ms. \<not> isCapture m" by simp
    then show ?thesis unfolding isCapture_def by blast
  qed
  have forced: "\<forall>m \<in> set ms. captured m \<noteq> None" if "mj \<noteq> None"
  proof -
    from that obtain p where "mj = Some p" by auto
    with set_ms allCellMoves_forced[of _ b player p] have "\<forall>m \<in> set ms. isCapture m"
      by (auto split: if_splits)
    then show ?thesis unfolding isCapture_def by blast
  qed
  have avail: "\<forall>m \<in> set ms. captured m \<noteq> None" if avail: "captureAvailable b player mj"
  proof -
    from avail obtain r c where rc: "r \<in> set idx8" "c \<in> set idx8"
      and piece: "truthy (b r c)" "playerOf (b r c) = player"
      and cs: "case getValidMoves b r c mj of
                 Inr pm \<Rightarrow> \<exists>m \<in> set pm. captured m \<noteq> None | Inl e \<Rightarrow> False"
      unfolding captureAvailable_def by blast
    from cs obtain pm where pm: "getValidMoves b r c mj = Inr pm"
      by (cases "getValidMoves b r c mj") auto
    with cs obtain m where m: "m \<in> set pm" "captured m \<noteq> None"
      by auto
    from piece pm m have "m \<in> cellMoves b player mj r c"
      by (simp add: cellMoves_def)
    with rc have "m \<in> allCellMoves b player mj"
      unfolding allCellMoves_def by blast
    with m have "\<exists>m \<in> allCellMoves b player mj. isCapture m"
      by (auto simp: isCapture_def)
    with set_ms have "\<forall>m \<in> set ms. isCapture m" by simp
    then show ?thesis unfolding isCapture_def by blast
  qed
  have unforced: "\<forall>m \<in> set ms. captured m \<noteq> None" if "captureAvailable b player None"
  proof (cases "mj = None")
    case True
    with that avail show ?thesis by simp
  next
    case False
    with forced show ?thesis by simp
  qed
  from ms one forced avail unforced show ?thesis by blast
qed

theorem mandatory_capture_witness:
  "captureAvailable chainBoard 1 None \<and>
   getAllValidMoves chainBoard 1 None =
     Inr [\<lparr>mv_from = (5, 2), mv_to = (3, 4), captured = Some (4, 3)\<rparr>] \<and>
   (case getValidMoves chainBoard 7 0 None of Inr ms \<Rightarrow> ms | Inl e \<Rightarrow> []) =
     [\<lparr>mv_from = (7, 0), mv_to = (6, 1), captured = None\<rparr>] \<and>
   (\<exists>ms. getAllValidMoves chainBoard 1 None = Inr ms \<and> list_all isCapture ms) \<and>
   (\<exists>ms. getAllValidMoves createInitialBoard 1 None = Inr ms \<and>
         \<lparr>mv_from = (5, 0), mv_to = (4, 1), captured = None\<rparr> \<in> set ms \<and>
         list_all (\<lambda>m. captured m = None) ms)"
proof -
  have avail: "captureAvailable chainBoard 1 None"
    by code_simp
  have moves: "getAllValidMoves chainBoard 1 None =
     Inr [\<lparr>mv_from = (5, 2), mv_to = (3, 4), captured = Some (4, 3)\<rparr>]"
    by code_simp
  have single: "(case getValidMoves chainBoard 7 0 None of Inr ms \<Rightarrow> ms | Inl e \<Rightarrow> []) =
     [\<lparr>mv_from = (7, 0), mv_to = (6, 1), captured = None\<rparr>]"
    by code_simp
  from mandatory_capture[of chainBoard 1 None] avail
  have forced: "\<exists>ms. getAllValidMoves chainBoard 1 None = Inr ms \<and> list_all isCapture ms"
    by (auto simp: list_all_iff isCapture_def)
  have ev: "case getAllValidMoves createInitialBoard 1 None of
      Inr ms \<Rightarrow> \<lparr>mv_from = (5, 0), mv_to = (4, 1), captured = None\<rparr> \<in> set ms
    | Inl e \<Rightarrow> False"
    by code_simp
  from mandatory_capture[of createInitialBoard 1 None] obtain ms where
    ms: "getAllValidMoves createInitialBoard 1 None = Inr ms"
    and imp: "(\<exists>m \<in> set ms. captured m = None) \<longrightarrow> (\<forall>m \<in> set ms. captured m = None)"
    by blast
  from ev ms have mem: "\<lparr>mv_from = (5, 0), mv_to = (4, 1), captured = None\<rparr> \<in> set ms"
    by simp
  then have "\<exists>m \<in> set ms. captured m = None"
    by (rule bexI[rotated]) simp
  with imp have "list_all (\<lambda>m. captured m = None) ms"
    by (simp add: list_all_iff)
  with ms mem have free: "\<exists>ms. getAllValidMoves createInitialBoard 1 None = Inr ms \<and>
         \<lparr>mv_from = (5, 0), mv_to = (4, 1), captured = None\<rparr> \<in> set ms \<and>
         list_all (\<lambda>m. captured m = None) ms"
    by blast
  from avail moves single forced free show ?thesis by blast
qed

text \<open>
  C3 (as amended). For every position and every legal capturing move, \<open>applyMove\<close>
  returns; it empties the origin and the captured cell, puts the moving piece on the
  destination (as a king when a man reaches its farthest rank) and leaves every other
  cell unchanged. If the piece was not promoted by this move and has a further capture
  from the destination, the turn does not pass and the forced continuation is the
  destination; otherwise, and in particular whenever the piece was just promoted, the
  turn passes and the forced continuation is cleared.
\<close>

theorem applyMove_capture:
  assumes legal: "getAllValidMoves (board gs) (currentTurn gs) (mustJumpFrom gs) = Inr legal"
    and m: "m \<in> set legal"
    and cap: "captured m = Some cap"
  shows "\<exists>gs'. applyMove gs m = Inr gs' \<and>
           board gs' (fst (mv_from m)) (snd (mv_from m)) = Num 0 \<and>
           board gs' (fst cap) (snd cap) = Num 0 \<and>
           board gs' (fst (mv_to m)) (snd (mv_to m)) =
             promote (board gs (fst (mv_from m)) (snd (mv_from m))) (fst (mv_to m)) \<and>
           (\<forall>r c. (r, c) \<noteq> mv_from m \<and> (r, c) \<noteq> cap \<and> (r, c) \<noteq> mv_to m \<longrightarrow>
                  board gs' r c = board gs r c) \<and>
           (if promote (board gs (fst (mv_from m)) (snd (mv_from m))) (fst (mv_to m)) =
                 board gs (fst (mv_from m)) (snd (mv_from m)) \<and>
               furtherCapture (board gs') (mv_to m)
            then currentTurn gs' = currentTurn gs \<and> mustJumpFrom gs' = Some (mv_to m)
            else currentTurn gs' = (if currentTurn gs = 1 then 2 else 1) \<and>
                 mustJumpFrom gs' = None)"
proof -
  from legal_move_origin[OF legal m] obtain r c pm where
    pm: "getValidMoves (board gs) r c (mustJumpFrom gs) = Inr pm" "m \<in> set pm"
    by blast
  from getValidMoves_member[OF pm] cap obtain d where
    d: "d \<in> set (directions (playerOf (board gs r c)) (isKingPiece (board gs r c)))"
    and j: "jumpOf (board gs) r c (playerOf (board gs r c)) d m"
    by (auto simp: stepOf_def)
  note geo = jumpOf_geometry[OF j d]
  from getValidMoves_row[OF pm(1)] have row: "0 \<le> r" "r \<le> 7" by auto
  from geo cap have capd: "cap = (r + fst d, c + snd d)" by simp
  from geo row have pre: "0 \<le> fst (mv_from m)" "fst (mv_from m) \<le> 7"
    "0 \<le> fst (mv_to m)" "fst (mv_to m) \<le> 7"
    "\<And>p. captured m = Some p \<Longrightarrow> 0 \<le> fst p \<and> fst p \<le> 7"
    by (auto simp: inGrid_def)
  from applyMove_returns[OF pre, of gs] obtain gs' where
    res: "applyMove gs m = Inr gs'" and bd: "board gs' = movedBoard (board gs) m"
    and turn: "if continues (board gs) m
            then currentTurn gs' = currentTurn gs \<and> mustJumpFrom gs' = Some (mv_to m)
            else currentTurn gs' = (if currentTurn gs = 1 then 2 else 1) \<and>
                 mustJumpFrom gs' = None"
    by blast
  have cont: "continues (board gs) m \<longleftrightarrow>
      promote (board gs (fst (mv_from m)) (snd (mv_from m))) (fst (mv_to m)) =
                 board gs (fst (mv_from m)) (snd (mv_from m)) \<and>
               furtherCapture (board gs') (mv_to m)"
    using cap bd by (simp add: continues_def)
  have cells: "board gs' (fst (mv_from m)) (snd (mv_from m)) = Num 0"
    "board gs' (fst cap) (snd cap) = Num 0"
    "board gs' (fst (mv_to m)) (snd (mv_to m)) =
             promote (board gs (fst (mv_from m)) (snd (mv_from m))) (fst (mv_to m))"
    using geo capd cap unfolding bd movedBoard_def clearCaptured_def setCell_def
    by auto
  have frame: "\<forall>r c. (r, c) \<noteq> mv_from m \<and> (r, c) \<noteq> cap \<and> (r, c) \<noteq> mv_to m \<longrightarrow>
                  board gs' r c = board gs r c"
    using cap unfolding bd movedBoard_def clearCaptured_def setCell_def
    by (auto simp: prod_eq_iff)
  from res cells frame turn cont show ?thesis by auto
qed

theorem applyMove_capture_witness:
  "getAllValidMoves (board (gameOn chainBoard 1)) (currentTurn (gameOn chainBoard 1))
     (mustJumpFrom (gameOn chainBoard 1)) =
     Inr [\<lparr>mv_from = (5, 2), mv_to = (3, 4), captured = Some (4, 3)\<rparr>] \<and>
   (case applyMove (gameOn chainBoard 1)
           \<lparr>mv_from = (5, 2), mv_to = (3, 4), captured = Some (4, 3)\<rparr> of
      Inr g \<Rightarrow> board g 5 2 = Num 0 \<and> board g 4 3 = Num 0 \<and> board g 3 4 = Num 1 \<and>
               furtherCapture (board g) (3, 4) \<and>
               currentTurn g = 1 \<and> mustJumpFrom g = Some (3, 4)
    | Inl e \<Rightarrow> False) \<and>
   getAllValidMoves (board (gameOn lastPieceBoard 1)) (currentTurn (gameOn lastPieceBoard 1))
     (mustJumpFrom (gameOn lastPieceBoard 1)) =
     Inr [\<lparr>mv_from = (5, 2), mv_to = (3, 4), captured = Some (4, 3)\<rparr>] \<and>
   (case applyMove (gameOn lastPieceBoard 1)
           \<lparr>mv_from = (5, 2), mv_to = (3, 4), captured = Some (4, 3)\<rparr> of
      Inr g \<Rightarrow> board g 5 2 = Num 0 \<and> board g 4 3 = Num 0 \<and> board g 3 4 = Num 1 \<and>
               \<not> furtherCapture (board g) (3, 4) \<and>
               currentTurn g = 2 \<and> mustJumpFrom g = None
    | Inl e \<Rightarrow> False)"
proof -
  let ?m = "\<lparr>mv_from = (5, 2), mv_to = (3, 4), captured = Some (4, 3)\<rparr>"
  have pr: "promote (Num 1) 3 = Num 1" by (simp add: promote_def)
  have first: "getAllValidMoves (board (gameOn chainBoard 1)) (currentTurn (gameOn chainBoard 1))
       (mustJumpFrom (gameOn chainBoard 1)) = Inr [?m] \<and>
     (case applyMove (gameOn chainBoard 1) ?m of
        Inr g \<Rightarrow> board g 5 2 = Num 0 \<and> board g 4 3 = Num 0 \<and> board g 3 4 = Num 1 \<and>
                 furtherCapture (board g) (3, 4) \<and>
                 currentTurn g = 1 \<and> mustJumpFrom g = Some (3, 4)
      | Inl e \<Rightarrow> False)"
  proof -
    let ?gs = "gameOn chainBoard 1"
    have legal: "getAllValidMoves (board ?gs) (currentTurn ?gs) (mustJumpFrom ?gs) = Inr [?m]"
      by code_simp
    have ev: "case applyMove ?gs ?m of
                Inr g \<Rightarrow> furtherCapture (board g) (3, 4) | Inl e \<Rightarrow> False"
      by code_simp
    have piece: "board ?gs 5 2 = Num 1" "currentTurn ?gs = 1"
      by code_simp+
    from applyMove_capture[OF legal, of ?m "(4, 3)"] obtain gs' where
      res: "applyMove ?gs ?m = Inr gs'"
      and cells: "board gs' 5 2 = Num 0" "board gs' 4 3 = Num 0"
        "board gs' 3 4 = promote (board ?gs 5 2) 3"
      and turn: "if promote (board ?gs 5 2) 3 = board ?gs 5 2 \<and> furtherCapture (board gs') (3, 4)
              then currentTurn gs' = currentTurn ?gs \<and> mustJumpFrom gs' = Some (3, 4)
              else currentTurn gs' = (if currentTurn ?gs = 1 then 2 else 1) \<and>
                   mustJumpFrom gs' = None"
      by auto
    from ev res have fc: "furtherCapture (board gs') (3, 4)" by simp
    from res cells turn fc piece pr legal show ?thesis by simp
  qed
  have second: "getAllValidMoves (board (gameOn lastPieceBoard 1))
       (currentTurn (gameOn lastPieceBoard 1)) (mustJumpFrom (gameOn lastPieceBoard 1)) =
       Inr [?m] \<and>
     (case applyMove (gameOn lastPieceBoard 1) ?m of
        Inr g \<Rightarrow> board g 5 2 = Num 0 \<and> board g 4 3 = Num 0 \<and> board g 3 4 = Num 1 \<and>
                 \<not> furtherCapture (board g) (3, 4) \<and>
                 currentTurn g = 2 \<and> mustJumpFrom g = None
      | Inl e \<Rightarrow> False)"
  proof -
    let ?gs = "gameOn lastPieceBoard 1"
    have legal: "getAllValidMoves (board ?gs) (currentTurn ?gs) (mustJumpFrom ?gs) = Inr [?m]"
      by code_simp
    have ev: "case applyMove ?gs ?m of
                Inr g \<Rightarrow> \<not> furtherCapture (board g) (3, 4) | Inl e \<Rightarrow> False"
      by code_simp
    have piece: "board ?gs 5 2 = Num 1" "currentTurn ?gs = 1"
      by code_simp+
    from applyMove_capture[OF legal, of ?m "(4, 3)"] obtain gs' where
      res: "applyMove ?gs ?m = Inr gs'"
      and cells: "board gs' 5 2 = Num 0" "board gs' 4 3 = Num 0"
        "board gs' 3 4 = promote (board ?gs 5 2) 3"
      and turn: "if promote (board ?gs 5 2) 3 = board ?gs 5 2 \<and> furtherCapture (board gs') (3, 4)
              then currentTurn gs' = currentTurn ?gs \<and> mustJumpFrom gs' = Some (3, 4)
              else currentTurn gs' = (if currentTurn ?gs = 1 then 2 else 1) \<and>
                   mustJumpFrom gs' = None"
      by auto
    from ev res have fc: "\<not> furtherCapture (board gs') (3, 4)" by simp
    from res cells turn fc piece pr legal show ?thesis by simp
  qed
  from first second show ?thesis by blast
qed

text \<open>
  C3 as stated fails: on \<open>promoBoard\<close> the man capturing from (2, 1) to (0, 3)
  becomes a king that has a further capture over (1, 4), and the turn passes all the
  same.
\<close>

theorem applyMove_promotion_counterexample:
  "getAllValidMoves (board (gameOn promoBoard 1)) (currentTurn (gameOn promoBoard 1))
     (mustJumpFrom (gameOn promoBoard 1)) =
     Inr [\<lparr>mv_from = (2, 1), mv_to = (0, 3), captured = Some (1, 2)\<rparr>] \<and>
   (case applyMove (gameOn promoBoard 1)
           \<lparr>mv_from = (2, 1), mv_to = (0, 3), captured = Some (1, 2)\<rparr> of
      Inr g \<Rightarrow> board g 0 3 = Num 3 \<and> furtherCapture (board g) (0, 3) \<and>
               currentTurn g = 2 \<and> mustJumpFrom g = None
    | Inl e \<Rightarrow> False)"
  by code_simp

text \<open>
  C4. Whenever \<open>applyMove\<close> returns a position in which the player to move has no
  legal move, the winner of that position is the other player, and from then on the
  \<open>makeMove\<close> handler leaves the room table unchanged whatever move is submitted.
\<close>

theorem win_detection:
  assumes res: "applyMove gs mv = Inr gs'"
    and none: "getAllValidMoves (board gs') (currentTurn gs') (mustJumpFrom gs') = Inr []"
  shows "winner gs' = Some (if currentTurn gs' = 1 then 2 else 1) \<and>
         (\<forall>rs sock r mv'.
            roomsGet rs (keyOf (roomId sock)) = Own r \<and> gameState r = Some gs' \<longrightarrow>
            makeMove rs sock mv' = (rs, Ignored))"
proof -
  from applyMove_Inr_rows[OF res] have pre: "0 \<le> fst (mv_from mv)" "fst (mv_from mv) \<le> 7"
    "0 \<le> fst (mv_to mv)" "fst (mv_to mv) \<le> 7"
    "\<And>p. captured mv = Some p \<Longrightarrow> 0 \<le> fst p \<and> fst p \<le> 7"
    by auto
  from applyMove_returns[OF pre, of gs] res none
  have w: "winner gs' = Some (if currentTurn gs' = 1 then 2 else 1)"
    by auto
  then have "truthyWinner (winner gs')"
    by (simp add: truthyWinner_def)
  then have "makeMove rs sock mv' = (rs, Ignored)"
    if "roomsGet rs (keyOf (roomId sock)) = Own r" "gameState r = Some gs'" for rs sock r mv'
    using that by (simp add: makeMove_def Let_def)
  with w show ?thesis by blast
qed

theorem win_detection_witness:
  "(case applyMove (gameOn lastPieceBoard 1)
           \<lparr>mv_from = (5, 2), mv_to = (3, 4), captured = Some (4, 3)\<rparr> of
      Inr g \<Rightarrow> getAllValidMoves (board g) (currentTurn g) (mustJumpFrom g) = Inr [] \<and>
               currentTurn g = 2 \<and> winner g = Some 1 \<and>
               fst (makeMove
                 (Map.empty(''AB12CD'' \<mapsto> \<lparr>players = [''s1'', ''s2''], gameState = Some g,
                                           rematchVotes = []\<rparr>))
                 player2 \<lparr>mv_from = (0, 1), mv_to = (1, 0), captured = None\<rparr>) ''AB12CD'' =
               Some \<lparr>players = [''s1'', ''s2''], gameState = Some g, rematchVotes = []\<rparr>
    | Inl e \<Rightarrow> False) \<and>
   (case applyMove (gameOn blockadeBoard 1)
           \<lparr>mv_from = (6, 3), mv_to = (7, 2), captured = None\<rparr> of
      Inr g \<Rightarrow> getAllValidMoves (board g) (currentTurn g) (mustJumpFrom g) = Inr [] \<and>
               board g 6 1 = Num 2 \<and> currentTurn g = 2 \<and> winner g = Some 1
    | Inl e \<Rightarrow> False)"
proof -
  let ?mv = "\<lparr>mv_from = (5, 2), mv_to = (3, 4), captured = Some (4, 3)\<rparr>"
  let ?bv = "\<lparr>mv_from = (6, 3), mv_to = (7, 2), captured = None\<rparr>"
  have ev: "case applyMove (gameOn lastPieceBoard 1) ?mv of
      Inr g \<Rightarrow> getAllValidMoves (board g) (currentTurn g) (mustJumpFrom g) = Inr [] \<and>
               currentTurn g = 2
    | Inl e \<Rightarrow> False"
    by code_simp
  then obtain g where g: "applyMove (gameOn lastPieceBoard 1) ?mv = Inr g"
    "getAllValidMoves (board g) (currentTurn g) (mustJumpFrom g) = Inr []" "currentTurn g = 2"
    by (cases "applyMove (gameOn lastPieceBoard 1) ?mv") auto
  let ?r = "\<lparr>players = [''s1'', ''s2''], gameState = Some g, rematchVotes = []\<rparr>"
  let ?rs = "Map.empty(''AB12CD'' \<mapsto> ?r)"
  have own: "roomsGet ?rs (keyOf (roomId player2)) = Own ?r \<and> gameState ?r = Some g"
    by (simp add: roomsGet_def keyOf_def player2_def)
  from win_detection[OF g(1) g(2)] own g(3)
  have "winner g = Some 1"
    and "makeMove ?rs player2 \<lparr>mv_from = (0, 1), mv_to = (1, 0), captured = None\<rparr> = (?rs, Ignored)"
    by auto
  with g have first: "case applyMove (gameOn lastPieceBoard 1) ?mv of
      Inr g \<Rightarrow> getAllValidMoves (board g) (currentTurn g) (mustJumpFrom g) = Inr [] \<and>
               currentTurn g = 2 \<and> winner g = Some 1 \<and>
               fst (makeMove
                 (Map.empty(''AB12CD'' \<mapsto> \<lparr>players = [''s1'', ''s2''], gameState = Some g,
                                           rematchVotes = []\<rparr>))
                 player2 \<lparr>mv_from = (0, 1), mv_to = (1, 0), captured = None\<rparr>) ''AB12CD'' =
               Some \<lparr>players = [''s1'', ''s2''], gameState = Some g, rematchVotes = []\<rparr>
    | Inl e \<Rightarrow> False"
    by simp
  have evb: "case applyMove (gameOn blockadeBoard 1) ?bv of
      Inr g \<Rightarrow> getAllValidMoves (board g) (currentTurn g) (mustJumpFrom g) = Inr [] \<and>
               board g 6 1 = Num 2 \<and> currentTurn g = 2
    | Inl e \<Rightarrow> False"
    by code_simp
  then obtain h where h: "applyMove (gameOn blockadeBoard 1) ?bv = Inr h"
    "getAllValidMoves (board h) (currentTurn h) (mustJumpFrom h) = Inr []"
    "board h 6 1 = Num 2" "currentTurn h = 2"
    by (cases "applyMove (gameOn blockadeBoard 1) ?bv") auto
  from win_detection[OF h(1) h(2)] h(4) have "winner h = Some 1"
    by simp
  with h have second: "case applyMove (gameOn blockadeBoard 1) ?bv of
      Inr g \<Rightarrow> getAllValidMoves (board g) (currentTurn g) (mustJumpFrom g) = Inr [] \<and>
               board g 6 1 = Num 2 \<and> currentTurn g = 2 \<and> winner g = Some 1
    | Inl e \<Rightarrow> False"
    by simp
  from first second show ?thesis by blast
qed

text \<open>
  C8. For every board and every move that \<open>getValidMoves\<close> produces, the destination
  is a cell of the 8 x 8 grid that was empty before the move, the captured cell (if any)
  is on the grid, and \<open>applyMove\<close> returns a position in which the moving piece stands
  on the destination while every other cell is unchanged or emptied: no piece is written
  anywhere else.
\<close>

theorem valid_move_stays_on_grid:
  assumes ms: "getValidMoves (board gs) row col mj = Inr ms" and m: "m \<in> set ms"
  shows "inGrid (mv_to m) \<and>
         \<not> truthy (board gs (fst (mv_to m)) (snd (mv_to m))) \<and>
         (\<forall>cap. captured m = Some cap \<longrightarrow> inGrid cap) \<and>
         (\<exists>gs'. applyMove gs m = Inr gs' \<and>
            board gs' (fst (mv_to m)) (snd (mv_to m)) =
              promote (board gs (fst (mv_from m)) (snd (mv_from m))) (fst (mv_to m)) \<and>
            truthy (board gs' (fst (mv_to m)) (snd (mv_to m))) \<and>
            (\<forall>r c. (r, c) \<noteq> mv_to m \<longrightarrow>
                   board gs' r c = board gs r c \<or> board gs' r c = Num 0))"
proof -
  from getValidMoves_row[OF ms] have row: "0 \<le> row" "row \<le> 7" by auto
  from getValidMoves_member[OF ms m] obtain d where
    piece: "truthy (board gs row col)"
    and d: "d \<in> set (directions (playerOf (board gs row col)) (isKingPiece (board gs row col)))"
    and js: "jumpOf (board gs) row col (playerOf (board gs row col)) d m \<or>
             stepOf (board gs) row col mj d m"
    by blast
  have geo: "mv_from m = (row, col) \<and> inGrid (mv_to m) \<and>
      \<not> truthy (board gs (fst (mv_to m)) (snd (mv_to m))) \<and>
      (\<forall>cap. captured m = Some cap \<longrightarrow> inGrid cap)"
  proof (cases "jumpOf (board gs) row col (playerOf (board gs row col)) d m")
    case True
    from jumpOf_geometry[OF True d] show ?thesis by auto
  next
    case False
    with js have "stepOf (board gs) row col mj d m" by simp
    from stepOf_geometry[OF this d] show ?thesis by auto
  qed
  with row have pre: "0 \<le> fst (mv_from m)" "fst (mv_from m) \<le> 7"
    "0 \<le> fst (mv_to m)" "fst (mv_to m) \<le> 7"
    "\<And>p. captured m = Some p \<Longrightarrow> 0 \<le> fst p \<and> fst p \<le> 7"
    by (auto simp: inGrid_def)
  from applyMove_returns[OF pre, of gs] obtain gs' where
    res: "applyMove gs m = Inr gs'" and bd: "board gs' = movedBoard (board gs) m"
    by blast
  have dest: "board gs' (fst (mv_to m)) (snd (mv_to m)) =
      promote (board gs (fst (mv_from m)) (snd (mv_from m))) (fst (mv_to m))"
    unfolding bd movedBoard_def setCell_def by simp
  have tr: "truthy (board gs' (fst (mv_to m)) (snd (mv_to m)))"
    unfolding dest using geo piece by (simp add: promote_truthy)
  have others: "\<forall>r c. (r, c) \<noteq> mv_to m \<longrightarrow>
      board gs' r c = board gs r c \<or> board gs' r c = Num 0"
    unfolding bd movedBoard_def clearCaptured_def setCell_def
    by (auto simp: prod_eq_iff split: option.splits)
  from geo res dest tr others show ?thesis by blast
qed

theorem valid_move_stays_on_grid_witness:
  "getValidMoves (board (gameOn chainBoard 1)) 5 2 None =
     Inr [\<lparr>mv_from = (5, 2), mv_to = (3, 4), captured = Some (4, 3)\<rparr>] \<and>
   inGrid (3, 4) \<and> inGrid (4, 3) \<and> board (gameOn chainBoard 1) 3 4 = Num 0 \<and>
   (case applyMove (gameOn chainBoard 1)
           \<lparr>mv_from = (5, 2), mv_to = (3, 4), captured = Some (4, 3)\<rparr> of
      Inr g \<Rightarrow> board g 3 4 = Num 1 \<and> board g 5 2 = Num 0 \<and> board g 4 3 = Num 0 \<and>
               board g 7 0 = Num 1
    | Inl e \<Rightarrow> False) \<and>
   getValidMoves (board (gameOn promoBoard 2)) 1 4 None =
     Inr [\<lparr>mv_from = (1, 4), mv_to = (2, 3), captured = None\<rparr>,
          \<lparr>mv_from = (1, 4), mv_to = (2, 5), captured = None\<rparr>] \<and>
   inGrid (2, 5) \<and> board (gameOn promoBoard 2) 2 5 = Num 0 \<and>
   (case applyMove (gameOn promoBoard 2)
           \<lparr>mv_from = (1, 4), mv_to = (2, 5), captured = None\<rparr> of
      Inr g \<Rightarrow> board g 2 5 = Num 2 \<and> board g 1 4 = Num 0 \<and> board g 1 2 = Num 2
    | Inl e \<Rightarrow> False)"
proof -
  have first: "getValidMoves (board (gameOn chainBoard 1)) 5 2 None =
       Inr [\<lparr>mv_from = (5, 2), mv_to = (3, 4), captured = Some (4, 3)\<rparr>] \<and>
     inGrid (3, 4) \<and> inGrid (4, 3) \<and> board (gameOn chainBoard 1) 3 4 = Num 0 \<and>
     (case applyMove (gameOn chainBoard 1)
             \<lparr>mv_from = (5, 2), mv_to = (3, 4), captured = Some (4, 3)\<rparr> of
        Inr g \<Rightarrow> board g 3 4 = Num 1 \<and> board g 5 2 = Num 0 \<and> board g 4 3 = Num 0 \<and>
                 board g 7 0 = Num 1
      | Inl e \<Rightarrow> False)"
  proof -
    let ?gs = "gameOn chainBoard 1"
    let ?m = "\<lparr>mv_from = (5, 2), mv_to = (3, 4), captured = Some (4, 3)\<rparr>"
    have ms: "getValidMoves (board ?gs) 5 2 None = Inr [?m]"
      by code_simp
    have before: "board ?gs 3 4 = Num 0" "board ?gs 5 2 = Num 1"
      by code_simp+
    have rest: "case applyMove ?gs ?m of
        Inr g \<Rightarrow> board g 5 2 = Num 0 \<and> board g 4 3 = Num 0 \<and> board g 7 0 = Num 1
      | Inl e \<Rightarrow> False"
      by code_simp
    from valid_move_stays_on_grid[OF ms, of ?m] obtain gs' where
      grid: "inGrid (3, 4)" "inGrid (4, 3)"
      and res: "applyMove ?gs ?m = Inr gs'"
      and dest: "board gs' 3 4 = promote (board ?gs 5 2) 3"
      by auto
    have "promote (Num 1) 3 = Num 1" by (simp add: promote_def)
    with ms before rest grid res dest show ?thesis by simp
  qed
  have second: "getValidMoves (board (gameOn promoBoard 2)) 1 4 None =
       Inr [\<lparr>mv_from = (1, 4), mv_to = (2, 3), captured = None\<rparr>,
            \<lparr>mv_from = (1, 4), mv_to = (2, 5), captured = None\<rparr>] \<and>
     inGrid (2, 5) \<and> board (gameOn promoBoard 2) 2 5 = Num 0 \<and>
     (case applyMove (gameOn promoBoard 2)
             \<lparr>mv_from = (1, 4), mv_to = (2, 5), captured = None\<rparr> of
        Inr g \<Rightarrow> board g 2 5 = Num 2 \<and> board g 1 4 = Num 0 \<and> board g 1 2 = Num 2
      | Inl e \<Rightarrow> False)"
  proof -
    let ?gs = "gameOn promoBoard 2"
    let ?m = "\<lparr>mv_from = (1, 4), mv_to = (2, 5), captured = None\<rparr>"
    have ms: "getValidMoves (board ?gs) 1 4 None =
       Inr [\<lparr>mv_from = (1, 4), mv_to = (2, 3), captured = None\<rparr>, ?m]"
      by code_simp
    have before: "board ?gs 2 5 = Num 0" "board ?gs 1 4 = Num 2"
      by code_simp+
    have rest: "case applyMove ?gs ?m of
        Inr g \<Rightarrow> board g 1 4 = Num 0 \<and> board g 1 2 = Num 2
      | Inl e \<Rightarrow> False"
      by code_simp
    from valid_move_stays_on_grid[OF ms, of ?m] obtain gs' where
      grid: "inGrid (2, 5)"
      and res: "applyMove ?gs ?m = Inr gs'"
      and dest: "board gs' 2 5 = promote (board ?gs 1 4) 2"
      by auto
    have "promote (Num 2) 2 = Num 2" by (simp add: promote_def)
    with ms before rest grid res dest show ?thesis by simp
  qed
  from first second show ?thesis by blast
qed

text \<open>
  C2 (as amended). The \<open>makeMove\<close> handler leaves the room table unchanged when the
  session has no position, when the position has a winner, when the requester is not the
  turn-owner, and when no legal move of the turn-owner for the current position and
  forced continuation has the origin and the destination of the submitted move.
\<close>

theorem makeMove_rejected:
  "(sessionPosition rs sock = None \<longrightarrow> makeMove rs sock mv = (rs, Ignored)) \<and>
   (\<forall>gs. sessionPosition rs sock = Some gs \<and> truthyWinner (winner gs) \<longrightarrow>
         makeMove rs sock mv = (rs, Ignored)) \<and>
   (\<forall>gs. sessionPosition rs sock = Some gs \<and> Some (currentTurn gs) \<noteq> playerIndex sock \<longrightarrow>
         makeMove rs sock mv = (rs, Ignored)) \<and>
   (\<forall>gs valid. sessionPosition rs sock = Some gs \<and>
         getAllValidMoves (board gs) (currentTurn gs) (mustJumpFrom gs) = Inr valid \<and>
         \<not> isValid valid mv \<longrightarrow>
         fst (makeMove rs sock mv) = rs)"
proof -
  have none: "makeMove rs sock mv = (rs, Ignored)" if "sessionPosition rs sock = None"
    using that
    by (cases "roomsGet rs (keyOf (roomId sock))")
       (auto simp: sessionPosition_def makeMove_def Let_def)
  have some: "\<exists>r. roomsGet rs (keyOf (roomId sock)) = Own r \<and> gameState r = Some gs"
    if "sessionPosition rs sock = Some gs" for gs
    using that
    by (cases "roomsGet rs (keyOf (roomId sock))") (auto simp: sessionPosition_def)
  have won: "makeMove rs sock mv = (rs, Ignored)"
    if "sessionPosition rs sock = Some gs" "truthyWinner (winner gs)" for gs
    using some[OF that(1)] that(2) by (auto simp: makeMove_def Let_def)
  have turn: "makeMove rs sock mv = (rs, Ignored)"
    if "sessionPosition rs sock = Some gs" "Some (currentTurn gs) \<noteq> playerIndex sock" for gs
    using some[OF that(1)] that(2) by (auto simp: makeMove_def Let_def)
  have illegal: "fst (makeMove rs sock mv) = rs"
    if pos: "sessionPosition rs sock = Some gs"
      and valid: "getAllValidMoves (board gs) (currentTurn gs) (mustJumpFrom gs) = Inr valid"
      and inv: "\<not> isValid valid mv" for gs valid
  proof (cases "truthyWinner (winner gs) \<or> Some (currentTurn gs) \<noteq> playerIndex sock")
    case True
    with won[OF pos] turn[OF pos] show ?thesis by auto
  next
    case False
    then have "keyPlayer (playerIndex sock) = currentTurn gs"
      by (auto simp: keyPlayer_def split: option.splits)
    with some[OF pos] False valid inv show ?thesis
      by (auto simp: makeMove_def Let_def)
  qed
  from none won turn illegal show ?thesis by blast
qed

theorem makeMove_rejected_witness:
  "sessionPosition Map.empty newcomer = None \<and>
   makeMove Map.empty newcomer \<lparr>mv_from = (5, 0), mv_to = (4, 1), captured = None\<rparr> =
     (Map.empty, Ignored) \<and>
   sessionPosition (roomWith finishedGame []) player2 = Some finishedGame \<and>
   truthyWinner (winner finishedGame) \<and>
   makeMove (roomWith finishedGame []) player2
       \<lparr>mv_from = (0, 1), mv_to = (1, 0), captured = None\<rparr> =
     (roomWith finishedGame [], Ignored) \<and>
   sessionPosition (roomWith createGameState []) player2 = Some createGameState \<and>
   Some (currentTurn createGameState) \<noteq> playerIndex player2 \<and>
   makeMove (roomWith createGameState []) player2
       \<lparr>mv_from = (2, 1), mv_to = (3, 0), captured = None\<rparr> =
     (roomWith createGameState [], Ignored) \<and>
   sessionPosition (roomWith createGameState []) player1 = Some createGameState \<and>
   (case getAllValidMoves (board createGameState) (currentTurn createGameState)
           (mustJumpFrom createGameState) of
      Inr valid \<Rightarrow> \<not> isValid valid \<lparr>mv_from = (6, 1), mv_to = (5, 0), captured = None\<rparr>
    | Inl e \<Rightarrow> False) \<and>
   fst (makeMove (roomWith createGameState []) player1
       \<lparr>mv_from = (6, 1), mv_to = (5, 0), captured = None\<rparr>) =
     roomWith createGameState []"
proof -
  let ?a = "\<lparr>mv_from = (5, 0), mv_to = (4, 1), captured = None\<rparr>"
  let ?b = "\<lparr>mv_from = (0, 1), mv_to = (1, 0), captured = None\<rparr>"
  let ?c = "\<lparr>mv_from = (2, 1), mv_to = (3, 0), captured = None\<rparr>"
  let ?d = "\<lparr>mv_from = (6, 1), mv_to = (5, 0), captured = None\<rparr>"
  have h1: "sessionPosition Map.empty newcomer = None"
    by code_simp
  have h2: "sessionPosition (roomWith finishedGame []) player2 = Some finishedGame"
    "truthyWinner (winner finishedGame)"
    by (simp_all add: sessionPosition_def roomWith_def player2_def roomsGet_def keyOf_def
        truthyWinner_def finishedGame_def)
  have h3: "sessionPosition (roomWith createGameState []) player2 = Some createGameState"
    "Some (currentTurn createGameState) \<noteq> playerIndex player2"
    by (simp_all add: sessionPosition_def roomWith_def player2_def roomsGet_def keyOf_def
        createGameState_def)
  have h4: "sessionPosition (roomWith createGameState []) player1 = Some createGameState"
    by (simp_all add: sessionPosition_def roomWith_def player1_def roomsGet_def keyOf_def)
  have ev: "case getAllValidMoves (board createGameState) (currentTurn createGameState)
           (mustJumpFrom createGameState) of
      Inr valid \<Rightarrow> \<not> isValid valid ?d | Inl e \<Rightarrow> False"
    by code_simp
  then obtain valid where valid:
    "getAllValidMoves (board createGameState) (currentTurn createGameState)
           (mustJumpFrom createGameState) = Inr valid" "\<not> isValid valid ?d"
    by (cases "getAllValidMoves (board createGameState) (currentTurn createGameState)
           (mustJumpFrom createGameState)") auto
  from makeMove_rejected[of Map.empty newcomer ?a] h1
  have c1: "makeMove Map.empty newcomer ?a = (Map.empty, Ignored)" by blast
  from makeMove_rejected[of "roomWith finishedGame []" player2 ?b] h2
  have c2: "makeMove (roomWith finishedGame []) player2 ?b = (roomWith finishedGame [], Ignored)"
    by blast
  from makeMove_rejected[of "roomWith createGameState []" player2 ?c] h3
  have c3: "makeMove (roomWith createGameState []) player2 ?c =
      (roomWith createGameState [], Ignored)"
    by blast
  from makeMove_rejected[of "roomWith createGameState []" player1 ?d] h4 valid
  have c4: "fst (makeMove (roomWith createGameState []) player1 ?d) = roomWith createGameState []"
    by blast
  from h1 h2 h3 h4 ev c1 c2 c3 c4 show ?thesis by blast
qed

text \<open>
  C2 as stated fails: in the initial position the move from (5, 0) to (4, 1) with
  \<open>captured = [2, 1]\<close> is not a member of the legal moves, yet the handler applies it;
  the cell (2, 1) is emptied and the turn passes.
\<close>

theorem makeMove_member_counterexample:
  "(case getAllValidMoves (board createGameState) (currentTurn createGameState)
           (mustJumpFrom createGameState) of
      Inr valid \<Rightarrow> \<lparr>mv_from = (5, 0), mv_to = (4, 1), captured = Some (2, 1)\<rparr> \<notin> set valid
    | Inl e \<Rightarrow> False) \<and>
   cellAt (roomWith createGameState []) ''AB12CD'' 2 1 = Some (Num 2) \<and>
   turnAt (roomWith createGameState []) ''AB12CD'' = Some 1 \<and>
   cellAt (fst (makeMove (roomWith createGameState []) player1
                  \<lparr>mv_from = (5, 0), mv_to = (4, 1), captured = Some (2, 1)\<rparr>))
      ''AB12CD'' 2 1 = Some (Num 0) \<and>
   turnAt (fst (makeMove (roomWith createGameState []) player1
                  \<lparr>mv_from = (5, 0), mv_to = (4, 1), captured = Some (2, 1)\<rparr>))
      ''AB12CD'' = Some 2"
  by code_simp

text \<open>
  C5. Whenever a vote brings the vote set of a room to two members,
  \<open>processRematchVote\<close> replaces, in the one step that runs before its \<open>await\<close>, the
  position by the start position and the vote set by the empty set. The start position
  has 12 men of each player and 40 empty cells on the grid (so 24 pieces and no king),
  player 1 to move, no forced continuation and no winner.
\<close>

theorem rematch_reset:
  assumes own: "roomsGet rs (keyOf (roomId sock)) = Own r"
    and two: "length (setAdd (rematchVotes r) (sock_id sock)) \<ge> 2"
  shows "processRematchVote rs sock =
           Inr (rs(keyOf (roomId sock) \<mapsto>
                  r\<lparr>gameState := Some createGameState, rematchVotes := []\<rparr>)) \<and>
         countCells (board createGameState) (Num 1) = 12 \<and>
         countCells (board createGameState) (Num 2) = 12 \<and>
         countCells (board createGameState) (Num 0) = 40 \<and>
         currentTurn createGameState = 1 \<and>
         mustJumpFrom createGameState = None \<and>
         winner createGameState = None"
proof -
  from own two have "processRematchVote rs sock =
           Inr (rs(keyOf (roomId sock) \<mapsto>
                  r\<lparr>gameState := Some createGameState, rematchVotes := []\<rparr>))"
    by (simp add: processRematchVote_def Let_def)
  moreover have "board createGameState = createInitialBoard"
    "currentTurn createGameState = 1" "mustJumpFrom createGameState = None"
    "winner createGameState = None"
    by (simp_all add: createGameState_def)
  ultimately show ?thesis using initial_layout by simp
qed

theorem rematch_reset_witness:
  "roomsGet (roomWith finishedGame [''s1'']) (keyOf (roomId player2)) =
     Own \<lparr>players = [''s1'', ''s2''], gameState = Some finishedGame, rematchVotes = [''s1'']\<rparr> \<and>
   length (setAdd [''s1''] (sock_id player2)) \<ge> 2 \<and>
   processRematchVote (roomWith finishedGame [''s1'']) player2 =
     Inr (roomWith createGameState [])"
proof -
  let ?r = "\<lparr>players = [''s1'', ''s2''], gameState = Some finishedGame, rematchVotes = [''s1'']\<rparr>"
  have own: "roomsGet (roomWith finishedGame [''s1'']) (keyOf (roomId player2)) = Own ?r"
    by (simp add: roomsGet_def roomWith_def keyOf_def player2_def)
  have two: "length (setAdd (rematchVotes ?r) (sock_id player2)) \<ge> 2"
    by (simp add: setAdd_def player2_def)
  have upd: "(roomWith finishedGame [''s1''])(keyOf (roomId player2) \<mapsto>
                  ?r\<lparr>gameState := Some createGameState, rematchVotes := []\<rparr>) =
             roomWith createGameState []"
    by (simp add: roomWith_def keyOf_def player2_def)
  from rematch_reset[OF own two] upd own two show ?thesis by simp
qed

text \<open>
  C7 (as amended). \<open>processRematchVote\<close> does not look at the outcome: for every
  registered room, whatever its position, the voter is added to the vote set, and when
  the set then has two members the position is reset and the set emptied.
\<close>

theorem rematch_vote_any_outcome:
  assumes own: "roomsGet rs (keyOf (roomId sock)) = Own r"
  shows "processRematchVote rs sock =
           Inr (rs(keyOf (roomId sock) \<mapsto>
                  (if length (setAdd (rematchVotes r) (sock_id sock)) \<ge> 2
                   then r\<lparr>gameState := Some createGameState, rematchVotes := []\<rparr>
                   else r\<lparr>rematchVotes := setAdd (rematchVotes r) (sock_id sock)\<rparr>)))"
  using own by (simp add: processRematchVote_def Let_def)

theorem rematch_vote_any_outcome_witness:
  "roomsGet (roomWith createGameState []) (keyOf (roomId player1)) =
     Own \<lparr>players = [''s1'', ''s2''], gameState = Some createGameState, rematchVotes = []\<rparr> \<and>
   winner createGameState = None \<and>
   processRematchVote (roomWith createGameState []) player1 =
     Inr (roomWith createGameState [''s1''])"
proof -
  let ?r = "\<lparr>players = [''s1'', ''s2''], gameState = Some createGameState, rematchVotes = []\<rparr>"
  have own: "roomsGet (roomWith createGameState []) (keyOf (roomId player1)) = Own ?r"
    by (simp add: roomsGet_def roomWith_def keyOf_def player1_def)
  have upd: "(roomWith createGameState [])(keyOf (roomId player1) \<mapsto>
                  (if length (setAdd (rematchVotes ?r) (sock_id player1)) \<ge> 2
                   then ?r\<lparr>gameState := Some createGameState, rematchVotes := []\<rparr>
                   else ?r\<lparr>rematchVotes := setAdd (rematchVotes ?r) (sock_id player1)\<rparr>)) =
             roomWith createGameState [''s1'']"
    by (simp add: roomWith_def keyOf_def player1_def setAdd_def)
  have w: "winner createGameState = None" by (simp add: createGameState_def)
  from rematch_vote_any_outcome[OF own] upd own w show ?thesis by simp
qed

text \<open>
  C7 as stated fails: after player 1's first move the game is in progress, yet a
  vote of player 1 is recorded, and a second vote, of player 2, resets the position.
\<close>

theorem rematch_vote_in_progress_counterexample:
  "winnerAt afterFirstMove ''AB12CD'' = Some None \<and>
   cellAt afterFirstMove ''AB12CD'' 4 1 = Some (Num 1) \<and>
   turnAt afterFirstMove ''AB12CD'' = Some 2 \<and>
   votesAt afterFirstMove ''AB12CD'' = Some [] \<and>
   (case processRematchVote afterFirstMove player1 of
      Inr rs \<Rightarrow>
        votesAt rs ''AB12CD'' = Some [''s1''] \<and>
        (case processRematchVote rs player2 of
           Inr rs' \<Rightarrow> cellAt rs' ''AB12CD'' 4 1 = Some (Num 0) \<and>
                      turnAt rs' ''AB12CD'' = Some 1 \<and> votesAt rs' ''AB12CD'' = Some []
         | Inl e \<Rightarrow> False)
    | Inl e \<Rightarrow> False)"
  by code_simp

text \<open>
  C6 (as amended). The room table has at most one room per token. \<open>createRoom\<close>
  draws one token and makes no collision check and no retry: it stores the new room,
  whose only player is the creator, under the drawn token, leaves the room of every other
  token unchanged, and records the token and player index 1 on the socket.
\<close>

theorem createRoom_registers:
  assumes "createRoom rnd rs sock = (rs', sock', t)"
  shows "t = generateRoomId rnd \<and>
         rs' t = Some \<lparr>players = [sock_id sock], gameState = None, rematchVotes = []\<rparr> \<and>
         (\<forall>k. k \<noteq> t \<longrightarrow> rs' k = rs k) \<and>
         dom rs' = insert t (dom rs) \<and>
         roomsGet rs' t = Own \<lparr>players = [sock_id sock], gameState = None, rematchVotes = []\<rparr> \<and>
         sock' = sock\<lparr>roomId := Some t, playerIndex := Some 1\<rparr>"
  using assms by (auto simp: createRoom_def Let_def roomsGet_def)

theorem createRoom_registers_witness:
  "createRoom ''0.ab12cdx9k'' Map.empty \<lparr>sock_id = ''s1'', roomId = None, playerIndex = None\<rparr> =
     (Map.empty(''AB12CD'' \<mapsto> \<lparr>players = [''s1''], gameState = None, rematchVotes = []\<rparr>),
      player1, ''AB12CD'') \<and>
   generateRoomId ''0.ab12cdx9k'' = ''AB12CD'' \<and>
   dom (Map.empty(''AB12CD'' \<mapsto> \<lparr>players = [''s1''], gameState = None, rematchVotes = []\<rparr>)) =
     {''AB12CD''}"
proof -
  let ?s = "\<lparr>sock_id = ''s1'', roomId = None, playerIndex = None\<rparr>"
  let ?rs = "Map.empty(''AB12CD'' \<mapsto> \<lparr>players = [''s1''], gameState = None, rematchVotes = []\<rparr>)"
  have gen: "generateRoomId ''0.ab12cdx9k'' = ''AB12CD''"
    by code_simp
  have res: "createRoom ''0.ab12cdx9k'' Map.empty ?s = (?rs, player1, ''AB12CD'')"
    by (simp add: createRoom_def gen player1_def Let_def)
  from createRoom_registers[OF res] have "dom ?rs = insert ''AB12CD'' (dom (Map.empty :: rooms))"
    by blast
  with res gen show ?thesis by simp
qed

text \<open>
  C6 as stated fails: two random numbers with the same first six digits give the
  same token, and the second \<open>createRoom\<close> puts its room in the place of the first.
\<close>

theorem createRoom_collision_counterexample:
  "generateRoomId ''0.ab12cdx9k'' = ''AB12CD'' \<and>
   generateRoomId ''0.ab12cd7qz'' = ''AB12CD'' \<and>
   playersAt (fst (createRoom ''0.ab12cdx9k'' Map.empty
                     \<lparr>sock_id = ''s1'', roomId = None, playerIndex = None\<rparr>)) ''AB12CD'' =
     Some [''s1''] \<and>
   playersAt (fst (createRoom ''0.ab12cd7qz''
                     (fst (createRoom ''0.ab12cdx9k'' Map.empty
                             \<lparr>sock_id = ''s1'', roomId = None, playerIndex = None\<rparr>))
                     newcomer)) ''AB12CD'' =
     Some [''s3''] \<and>
   snd (snd (createRoom ''0.ab12cd7qz''
                     (fst (createRoom ''0.ab12cdx9k'' Map.empty
                             \<lparr>sock_id = ''s1'', roomId = None, playerIndex = None\<rparr>))
                     newcomer)) = ''AB12CD''"
  by code_simp

text \<open>
  C9. The code at a failing input: no room is registered, and joining the token
  \<open>constructor\<close> (or \<open>toString\<close>) ends in a TypeError, not in \<open>Room not found\<close>,
  because \<open>rooms[roomId]\<close> finds the property that the table inherits from
  \<open>Object.prototype\<close>. A token that is no such property name is reported as not found.
\<close>

theorem joinRoom_inherited_key:
  "Map.empty ''constructor'' = (None :: room option) \<and>
   joinRoom Map.empty newcomer ''constructor'' = Inl TypeError \<and>
   joinRoom Map.empty newcomer ''toString'' = Inl TypeError \<and>
   joinRoom Map.empty newcomer ''ZZZZZZ'' = Inl (Error ''Room not found'')"
  by (simp add: joinRoom_def roomsGet_def objectPrototypeKeys_def)

text \<open>
  C10. The code at failing inputs. In the initial position the only legal move from
  (5, 0) to (4, 1) captures nothing. A submitted move with the same origin and
  destination passes the legality check whatever its \<open>captured\<close> field is, and
  \<open>applyMove\<close> uses that field: with \<open>[2, 1]\<close> the opponent's man on (2, 1) is removed,
  with \<open>[0, 9]\<close> the cell (0, 9) outside the grid is written, and with \<open>[9, 0]\<close> a
  TypeError is raised after the origin has been emptied, so that the moving piece is
  lost and the turn does not pass.
\<close>

theorem makeMove_trusts_captured:
  "(case getAllValidMoves (board createGameState) (currentTurn createGameState)
           (mustJumpFrom createGameState) of
      Inr valid \<Rightarrow>
        isValid valid \<lparr>mv_from = (5, 0), mv_to = (4, 1), captured = Some (2, 1)\<rparr> \<and>
        filter (\<lambda>m. mv_from m = (5, 0) \<and> mv_to m = (4, 1)) valid =
          [\<lparr>mv_from = (5, 0), mv_to = (4, 1), captured = None\<rparr>]
    | Inl e \<Rightarrow> False) \<and>
   cellAt (fst (makeMove (roomWith createGameState []) player1
                  \<lparr>mv_from = (5, 0), mv_to = (4, 1), captured = None\<rparr>))
      ''AB12CD'' 2 1 = Some (Num 2) \<and>
   cellAt (fst (makeMove (roomWith createGameState []) player1
                  \<lparr>mv_from = (5, 0), mv_to = (4, 1), captured = Some (2, 1)\<rparr>))
      ''AB12CD'' 2 1 = Some (Num 0) \<and>
   cellAt (roomWith createGameState []) ''AB12CD'' 0 9 = Some Undefined \<and>
   cellAt (fst (makeMove (roomWith createGameState []) player1
                  \<lparr>mv_from = (5, 0), mv_to = (4, 1), captured = Some (0, 9)\<rparr>))
      ''AB12CD'' 0 9 = Some (Num 0) \<and>
   replyError (snd (makeMove (roomWith createGameState []) player1
                  \<lparr>mv_from = (5, 0), mv_to = (4, 1), captured = Some (9, 0)\<rparr>)) =
     Some TypeError \<and>
   cellAt (fst (makeMove (roomWith createGameState []) player1
                  \<lparr>mv_from = (5, 0), mv_to = (4, 1), captured = Some (9, 0)\<rparr>))
      ''AB12CD'' 5 0 = Some (Num 0) \<and>
   cellAt (fst (makeMove (roomWith createGameState []) player1
                  \<lparr>mv_from = (5, 0), mv_to = (4, 1), captured = Some (9, 0)\<rparr>))
      ''AB12CD'' 4 1 = Some (Num 0) \<and>
   turnAt (fst (makeMove (roomWith createGameState []) player1
                  \<lparr>mv_from = (5, 0), mv_to = (4, 1), captured = Some (9, 0)\<rparr>))
      ''AB12CD'' = Some 1"
  by code_simp

end
